theory Spec2Isabelle
  imports Main "HOL-Library.Sublist"
begin

section \<open>Strings\<close>

text \<open>
  A JavaScript string is modelled as a \<^typ>\<open>string\<close> that holds the bytes of its UTF-8
  encoding, which is also how an input of the action reaches the program. Equality,
  concatenation and splitting at an ASCII character are the same on the bytes as on the
  characters, since a byte below 128 occurs in UTF-8 only as the ASCII character itself.

  \<open>ws_encodings\<close> lists the encodings of the characters that \<open>String.prototype.trim\<close>
  removes and that the regular expression class \<open>\s\<close> matches: U+0009 to U+000D, U+0020,
  U+00A0, U+1680, U+2000 to U+200A, U+2028, U+2029, U+202F, U+205F, U+3000 and U+FEFF.
\<close>

definition is_ascii :: "char \<Rightarrow> bool" where
  "is_ascii c = (\<not> digit7 c)"

definition ws_encodings :: "string list" where
  "ws_encodings =
     [[CHR 0x09], [CHR 0x0A], [CHR 0x0B], [CHR 0x0C], [CHR 0x0D], [CHR 0x20],
      [CHR 0xC2, CHR 0xA0], [CHR 0xE1, CHR 0x9A, CHR 0x80],
      [CHR 0xE2, CHR 0x80, CHR 0x80], [CHR 0xE2, CHR 0x80, CHR 0x81],
      [CHR 0xE2, CHR 0x80, CHR 0x82], [CHR 0xE2, CHR 0x80, CHR 0x83],
      [CHR 0xE2, CHR 0x80, CHR 0x84], [CHR 0xE2, CHR 0x80, CHR 0x85],
      [CHR 0xE2, CHR 0x80, CHR 0x86], [CHR 0xE2, CHR 0x80, CHR 0x87],
      [CHR 0xE2, CHR 0x80, CHR 0x88], [CHR 0xE2, CHR 0x80, CHR 0x89],
      [CHR 0xE2, CHR 0x80, CHR 0x8A], [CHR 0xE2, CHR 0x80, CHR 0xA8],
      [CHR 0xE2, CHR 0x80, CHR 0xA9], [CHR 0xE2, CHR 0x80, CHR 0xAF],
      [CHR 0xE2, CHR 0x81, CHR 0x9F], [CHR 0xE3, CHR 0x80, CHR 0x80],
      [CHR 0xEF, CHR 0xBB, CHR 0xBF]]"

text \<open>
  \<open>lead_len tokens s\<close> is the length of the first of the \<open>tokens\<close> that \<open>s\<close> starts with,
  and 0 when it starts with none. \<open>strip_leading tokens s\<close> removes tokens from the
  start of \<open>s\<close> as long as there is one; \<open>strip_aux\<close> carries the number of bytes of the
  current token that are still to be dropped.
\<close>

definition lead_len :: "string list \<Rightarrow> string \<Rightarrow> nat" where
  "lead_len tokens s =
     (case find (\<lambda>w. prefix w s) tokens of None \<Rightarrow> 0 | Some w \<Rightarrow> length w)"

fun strip_aux :: "string list \<Rightarrow> nat \<Rightarrow> string \<Rightarrow> string" where
  "strip_aux tokens k [] = []"
| "strip_aux tokens (Suc k) (c # cs) = strip_aux tokens k cs"
| "strip_aux tokens 0 (c # cs) =
     (case lead_len tokens (c # cs) of
        0 \<Rightarrow> c # cs
      | Suc k \<Rightarrow> strip_aux tokens k cs)"

definition strip_leading :: "string list \<Rightarrow> string \<Rightarrow> string" where
  "strip_leading tokens s = strip_aux tokens 0 s"

text \<open>\<open>s.trim()\<close>: the white space at the start goes, then the white space at the end.\<close>

definition trim :: "string \<Rightarrow> string" where
  "trim s = rev (strip_leading (map rev ws_encodings) (rev (strip_leading ws_encodings s)))"

text \<open>
  \<open>s.toLowerCase()\<close>. On a string of ASCII characters only the letters A to Z (65 to 90)
  change, each moving up by 32, which sets bit 5. For a string with a character beyond
  ASCII the result is the one of the Unicode case conversion, which the model takes from
  outside as the function \<open>unicode\<close>.
\<close>

definition ascii_lower :: "char \<Rightarrow> char" where
  "ascii_lower c =
     (let n = (of_char c :: nat)
      in if 65 \<le> n \<and> n \<le> 90
         then Char (digit0 c) (digit1 c) (digit2 c) (digit3 c) (digit4 c) True (digit6 c) (digit7 c)
         else c)"

definition toLowerCase :: "(string \<Rightarrow> string) \<Rightarrow> string \<Rightarrow> string" where
  "toLowerCase unicode s = (if list_all is_ascii s then map ascii_lower s else unicode s)"

text \<open>
  \<open>s.split(sep)\<close> for a one-character separator: the empty string gives one empty piece,
  and every separator starts a new piece.
\<close>

fun split_char :: "char \<Rightarrow> string \<Rightarrow> string list" where
  "split_char sep [] = [[]]"
| "split_char sep (c # cs) =
     (if c = sep then [] # split_char sep cs
      else (case split_char sep cs of
              [] \<Rightarrow> [[c]]
            | w # ws \<Rightarrow> (c # w) # ws))"

text \<open>
  \<open>s.split(/\s+/)\<close>: a maximal run of white space separates two pieces; a run at the
  start or at the end leaves an empty piece there.
\<close>

function split_ws :: "string \<Rightarrow> string list" where
  "split_ws [] = [[]]"
| "split_ws (c # cs) =
     (if lead_len ws_encodings (c # cs) \<noteq> 0
      then [] # split_ws (strip_leading ws_encodings (c # cs))
      else (case split_ws cs of
              [] \<Rightarrow> [[c]]
            | w # ws \<Rightarrow> (c # w) # ws))"
  by pat_completeness auto
termination
proof (relation "measure length")
  show "wf (measure length)" by simp
next
  fix c cs assume ws: "lead_len ws_encodings (c # cs) \<noteq> 0"
  have shorter: "length (strip_aux tokens k s) \<le> length s" for tokens k s
    by (induction tokens k s rule: strip_aux.induct) (auto split: nat.splits)
  from ws obtain k where "lead_len ws_encodings (c # cs) = Suc k"
    by (cases "lead_len ws_encodings (c # cs)") auto
  with shorter [of ws_encodings k cs]
  have "length (strip_leading ws_encodings (c # cs)) < length (c # cs)"
    by (simp add: strip_leading_def)
  then show "(strip_leading ws_encodings (c # cs), c # cs) \<in> measure length" by simp
next
  fix c cs
  show "(cs, c # cs) \<in> measure length" by simp
qed

text \<open>\<open>pieces.join(sep)\<close> for a one-character separator.\<close>

fun join_char :: "char \<Rightarrow> string list \<Rightarrow> string" where
  "join_char sep [] = []"
| "join_char sep [w] = w"
| "join_char sep (w # v # ws) = w @ sep # join_char sep (v # ws)"

text \<open>\<open>self.indexOf(x)\<close>: the first position of \<open>x\<close>, \<open>None\<close> for JavaScript's \<open>-1\<close>.\<close>

fun indexOf :: "'a list \<Rightarrow> 'a \<Rightarrow> nat option" where
  "indexOf [] x = None"
| "indexOf (y # ys) x = (if y = x then Some 0 else map_option Suc (indexOf ys x))"

section \<open>Errors, responses and the trace of outbound calls\<close>

text \<open>
  A thrown JavaScript error: its message and, for an HTTP error of axios, the status of
  \<open>error.response\<close>. A network failure or a timeout has no response.
\<close>

datatype js_error = JsError (message: string) (response_status: "nat option")

record file_info =
  file_name :: string
  file_size :: nat
  file_content :: string

text \<open>
  The body of an HTTP response as far as the program reads it: the release's \<open>id\<close>
  (absent when the body has none) and \<open>html_url\<close>.
\<close>

record release_data =
  data_id :: "nat option"
  data_html_url :: string

datatype response = Response (data: "release_data option")

text \<open>
  One event per outbound call, in the order the program makes them, with the arguments
  the source passes:
  \<^item> \<open>Fs_stat p\<close>, \<open>Fs_readFile p\<close>: \<open>fs.stat\<close> and \<open>fs.readFile\<close> in \<open>getFileInfo\<close>;
  \<^item> \<open>Octokit_createRelease owner repo tag_name name body draft prerelease\<close>;
  \<^item> \<open>Octokit_uploadReleaseAsset owner repo release_id name data\<close>;
  \<^item> \<open>Axios_get_tag baseUrl tag access_token\<close>: GET \<open>${baseUrl}/tags/${tag}\<close>;
  \<^item> \<open>Axios_post_tags baseUrl access_token tag_name refs\<close>: POST \<open>${baseUrl}/tags\<close>;
  \<^item> \<open>Axios_post_releases baseUrl access_token tag_name name body prerelease
    target_commitish\<close>: POST \<open>${baseUrl}/releases?access_token=...\<close>;
  \<^item> \<open>Axios_get_release_by_tag baseUrl tag access_token\<close>: GET
    \<open>${baseUrl}/releases/tags/${tag}\<close>;
  \<^item> \<open>Axios_post_attach_files baseUrl releaseId access_token filename knownLength content\<close>:
    POST \<open>${baseUrl}/releases/${releaseId}/attach_files\<close>.

  \<open>Core_setFailed\<close> is \<open>core.setFailed\<close>, which marks the action as failed, and
  \<open>Console_summary\<close> is the \<open>[SUMMARY]\<close> line with the three counters. The two
  \<open>Enter\<close> events mark the entry of an adapter. Other log lines are not part of the
  trace.
\<close>

datatype event =
    Enter_publishGitHubRelease
  | Enter_publishGiteeRelease
  | Fs_stat string
  | Fs_readFile string
  | Octokit_createRelease string string string string string bool bool
  | Octokit_uploadReleaseAsset string string "nat option" string string
  | Axios_get_tag string string string
  | Axios_post_tags string string string string
  | Axios_post_releases string string string string string string string
  | Axios_get_release_by_tag string string string
  | Axios_post_attach_files string nat string string nat string
  | Core_setFailed string
  | Console_summary nat nat nat

text \<open>
  The file system as the asset resolver sees it: \<open>glob.sync(pattern, {absolute: true,
  nodir: true})\<close>, which gives the matches or throws, and \<open>fsExtra.existsSync\<close>, which
  gives a boolean and never throws.
\<close>

record file_system =
  glob_sync :: "string \<Rightarrow> js_error + string list"
  existsSync :: "string \<Rightarrow> bool"

text \<open>
  Everything outside the program. The answer to a call may depend on all calls made so
  far, so each oracle that stands for a call with an effect takes the trace before the
  call. \<open>getInput name required\<close> and \<open>getBooleanInput name required\<close> are the two
  readers of \<open>@actions/core\<close>; \<open>getOctokit\<close> and \<open>context_repo\<close> are
  \<open>github.getOctokit(token)\<close> and the getter \<open>github.context.repo\<close>, which can throw;
  \<open>respond\<close> answers a network call; \<open>unicode_toLowerCase\<close> is the case conversion
  of strings with characters beyond ASCII.
\<close>

record env =
  getInput :: "string \<Rightarrow> bool \<Rightarrow> js_error + string"
  getBooleanInput :: "string \<Rightarrow> bool \<Rightarrow> js_error + bool"
  file_sys :: file_system
  path_basename :: "string \<Rightarrow> string"
  fs_stat :: "event list \<Rightarrow> string \<Rightarrow> js_error + nat"
  fs_readFile :: "event list \<Rightarrow> string \<Rightarrow> js_error + string"
  getOctokit :: "string \<Rightarrow> js_error + unit"
  context_repo :: "js_error + string \<times> string"
  respond :: "event list \<Rightarrow> event \<Rightarrow> js_error + response"
  unicode_toLowerCase :: "string \<Rightarrow> string"

section \<open>utils/fileHandler\<close>

definition assetPatterns :: "string \<Rightarrow> string list" where
  "assetPatterns assetInput = filter (\<lambda>item. item \<noteq> []) (map trim (split_ws assetInput))"

text \<open>
  The \<open>flatMap\<close> over the patterns: the matches of the patterns in order; a pattern
  for which \<open>glob.sync\<close> throws ends it with that error, since nothing catches it.
\<close>

fun flatMap_glob :: "file_system \<Rightarrow> string list \<Rightarrow> js_error + string list" where
  "flatMap_glob fs [] = Inr []"
| "flatMap_glob fs (pattern # rest) =
     (case glob_sync fs pattern of
        Inl error \<Rightarrow> Inl error
      | Inr matchedFiles \<Rightarrow>
          (case flatMap_glob fs rest of
             Inl error \<Rightarrow> Inl error
           | Inr others \<Rightarrow> Inr (matchedFiles @ others)))"

definition resolveAssetFiles :: "file_system \<Rightarrow> string \<Rightarrow> js_error + string list" where
  "resolveAssetFiles fs assetInput =
     (if assetInput = [] then Inr []
      else (case flatMap_glob fs (assetPatterns assetInput) of
              Inl error \<Rightarrow> Inl error
            | Inr self \<Rightarrow>
                Inr (map snd (filter (\<lambda>(index, filePath).
                       (let isUnique = (indexOf self filePath = Some index);
                            fileExists = existsSync fs filePath
                        in if \<not> fileExists then False
                           else if \<not> isUnique then False
                           else True))
                     (enumerate 0 self)))))"

text \<open>
  \<open>getFileInfo\<close>: \<open>fs.stat\<close>, then \<open>fs.readFile\<close>; an error of either is caught and the
  result is \<open>null\<close> (\<open>None\<close>).
\<close>

definition getFileInfo :: "env \<Rightarrow> event list \<Rightarrow> string \<Rightarrow> file_info option \<times> event list" where
  "getFileInfo E tr filePath =
     (let fileName = path_basename E filePath
      in case fs_stat E tr filePath of
           Inl error \<Rightarrow> (None, tr @ [Fs_stat filePath])
         | Inr fileStat \<Rightarrow>
             (case fs_readFile E (tr @ [Fs_stat filePath]) filePath of
                Inl error \<Rightarrow> (None, tr @ [Fs_stat filePath, Fs_readFile filePath])
              | Inr fileContent \<Rightarrow>
                  (Some \<lparr>file_name = fileName, file_size = fileStat, file_content = fileContent\<rparr>,
                   tr @ [Fs_stat filePath, Fs_readFile filePath])))"

section \<open>platforms/github\<close>

text \<open>
  The options objects of the two adapters. Both read \<open>token\<close>, \<open>tag\<close>, \<open>releaseName\<close>,
  \<open>body\<close>, \<open>prerelease\<close> and \<open>assetFiles\<close>; the GitHub adapter reads \<open>draft\<close> as well,
  the Gitee adapter \<open>owner\<close>, \<open>repo\<close> and \<open>targetCommitish\<close>. An adapter is defined on every
  extension of its record: an object with further properties is a legal argument, and
  the destructuring parameter ignores them.
\<close>

record release_options =
  token :: string
  tag :: string
  releaseName :: string
  body :: string
  prerelease :: bool
  assetFiles :: "string list"

record github_options = release_options +
  draft :: bool

record gitee_options = release_options +
  owner :: string
  repo :: string
  targetCommitish :: string

text \<open>
  The \<open>for\<close> loop over \<open>assetFiles.entries()\<close>. A \<open>null\<close> file info skips the asset
  (\<open>continue\<close>). The \<open>await\<close> of \<open>uploadReleaseAsset\<close> stands in no \<open>try\<close> of the loop, so
  a rejected upload leaves the loop with the error.
\<close>

fun github_upload_loop ::
  "env \<Rightarrow> string \<Rightarrow> string \<Rightarrow> nat option \<Rightarrow> event list \<Rightarrow> string list
     \<Rightarrow> (js_error + unit) \<times> event list" where
  "github_upload_loop E ow rp releaseId tr [] = (Inr (), tr)"
| "github_upload_loop E ow rp releaseId tr (filePath # rest) =
     (case getFileInfo E tr filePath of
        (None, tr1) \<Rightarrow> github_upload_loop E ow rp releaseId tr1 rest
      | (Some fileInfo, tr1) \<Rightarrow>
          (let rq = Octokit_uploadReleaseAsset ow rp releaseId
                      (file_name fileInfo) (file_content fileInfo)
           in case respond E tr1 rq of
                Inl error \<Rightarrow> (Inl error, tr1 @ [rq])
              | Inr _ \<Rightarrow> github_upload_loop E ow rp releaseId (tr1 @ [rq]) rest))"

text \<open>
  The body of the \<open>try\<close> block of \<open>publishGitHubRelease\<close>. Reading \<open>.id\<close> of a response
  without \<open>data\<close> is a \<open>TypeError\<close>.
\<close>

definition github_try ::
  "env \<Rightarrow> 'a github_options_scheme \<Rightarrow> event list \<Rightarrow> (js_error + release_data) \<times> event list" where
  "github_try E opts tr =
     (case getOctokit E (token opts) of
        Inl error \<Rightarrow> (Inl error, tr)
      | Inr octokit \<Rightarrow>
     (case context_repo E of
        Inl error \<Rightarrow> (Inl error, tr)
      | Inr (ow, rp) \<Rightarrow>
     (let rq = Octokit_createRelease ow rp (tag opts) (releaseName opts) (body opts)
                 (draft opts) (prerelease opts)
      in case respond E tr rq of
           Inl error \<Rightarrow> (Inl error, tr @ [rq])
         | Inr releaseResponse \<Rightarrow>
        (case data releaseResponse of
           None \<Rightarrow> (Inl (JsError ''Cannot read properties of undefined (reading 'id')'' None),
                     tr @ [rq])
         | Some d \<Rightarrow>
             (if length (assetFiles opts) > 0
              then (case github_upload_loop E ow rp (data_id d) (tr @ [rq]) (assetFiles opts) of
                      (Inl error, tr') \<Rightarrow> (Inl error, tr')
                    | (Inr _, tr') \<Rightarrow> (Inr d, tr'))
              else (Inr d, tr @ [rq]))))))"

text \<open>
  \<open>publishGitHubRelease\<close>: the \<open>catch\<close> marks the action as failed and throws the error
  again.
\<close>

definition publishGitHubRelease ::
  "env \<Rightarrow> 'a github_options_scheme \<Rightarrow> event list \<Rightarrow> (js_error + release_data) \<times> event list" where
  "publishGitHubRelease E opts tr =
     (case github_try E opts (tr @ [Enter_publishGitHubRelease]) of
        (Inl error, tr') \<Rightarrow>
          (Inl error,
           tr' @ [Core_setFailed (''GitHub Release publication failed: '' @ message error)])
      | (Inr d, tr') \<Rightarrow> (Inr d, tr'))"

section \<open>platforms/gitee\<close>

record counters =
  successCount :: nat
  skipCount :: nat
  failCount :: nat

text \<open>
  The \<open>for\<close> loop of step 4. Each iteration is one \<open>try\<close>: a \<open>null\<close> file info counts as
  skipped, a rejected upload is caught and counts as failed, an accepted one counts as
  a success.
\<close>

fun gitee_upload_loop ::
  "env \<Rightarrow> string \<Rightarrow> string \<Rightarrow> nat \<Rightarrow> counters \<Rightarrow> event list \<Rightarrow> string list
     \<Rightarrow> counters \<times> event list" where
  "gitee_upload_loop E baseUrl tk releaseId cnt tr [] = (cnt, tr)"
| "gitee_upload_loop E baseUrl tk releaseId cnt tr (filePath # rest) =
     (case getFileInfo E tr filePath of
        (None, tr1) \<Rightarrow>
          gitee_upload_loop E baseUrl tk releaseId (cnt\<lparr>skipCount := skipCount cnt + 1\<rparr>) tr1 rest
      | (Some fileInfo, tr1) \<Rightarrow>
          (let rq = Axios_post_attach_files baseUrl releaseId tk
                      (file_name fileInfo) (file_size fileInfo) (file_content fileInfo)
           in case respond E tr1 rq of
                Inl uploadError \<Rightarrow>
                  gitee_upload_loop E baseUrl tk releaseId
                    (cnt\<lparr>failCount := failCount cnt + 1\<rparr>) (tr1 @ [rq]) rest
              | Inr _ \<Rightarrow>
                  gitee_upload_loop E baseUrl tk releaseId
                    (cnt\<lparr>successCount := successCount cnt + 1\<rparr>) (tr1 @ [rq]) rest))"

text \<open>
  Step 1: probe the tag; on an error whose response has status 404 create the tag at
  \<open>targetCommitish\<close>; throw any other error again. An error of the tag creation itself
  leaves the \<open>catch\<close> block as it is.
\<close>

definition gitee_step1 ::
  "env \<Rightarrow> string \<Rightarrow> 'a gitee_options_scheme \<Rightarrow> event list \<Rightarrow> (js_error + unit) \<times> event list" where
  "gitee_step1 E baseUrl opts tr =
     (let probe = Axios_get_tag baseUrl (tag opts) (token opts)
      in case respond E tr probe of
           Inr _ \<Rightarrow> (Inr (), tr @ [probe])
         | Inl error \<Rightarrow>
             (if response_status error = Some 404
              then (let rq = Axios_post_tags baseUrl (token opts) (tag opts) (targetCommitish opts)
                    in case respond E (tr @ [probe]) rq of
                         Inl e \<Rightarrow> (Inl e, tr @ [probe, rq])
                       | Inr _ \<Rightarrow> (Inr (), tr @ [probe, rq]))
              else (Inl error, tr @ [probe])))"

text \<open>
  \<open>getReleaseResponse.data && getReleaseResponse.data.id\<close>: the identifier when the
  response has \<open>data\<close> with a truthy \<open>id\<close>; the number 0 is falsy.
\<close>

definition response_release_id :: "response \<Rightarrow> nat option" where
  "response_release_id r =
     (case data r of
        None \<Rightarrow> None
      | Some d \<Rightarrow> (case data_id d of
                      None \<Rightarrow> None
                    | Some i \<Rightarrow> if i = 0 then None else Some i))"

text \<open>
  Step 4: only for a non-empty \<open>assetFiles\<close>. The release is fetched by tag; a response
  without \<open>data\<close>, without \<open>id\<close> or with the falsy \<open>id\<close> 0 throws. Then the loop runs and
  the summary is printed.
\<close>

definition gitee_step4 ::
  "env \<Rightarrow> string \<Rightarrow> 'a gitee_options_scheme \<Rightarrow> event list \<Rightarrow> (js_error + unit) \<times> event list" where
  "gitee_step4 E baseUrl opts tr =
     (if length (assetFiles opts) > 0
      then (let rq = Axios_get_release_by_tag baseUrl (tag opts) (token opts)
            in case respond E tr rq of
                 Inl getReleaseError \<Rightarrow> (Inl getReleaseError, tr @ [rq])
               | Inr getReleaseResponse \<Rightarrow>
                   (case response_release_id getReleaseResponse of
                      None \<Rightarrow>
                        (Inl (JsError ''Failed to retrieve a valid Release ID from Gitee API response'' None),
                         tr @ [rq])
                    | Some releaseId \<Rightarrow>
                        (case gitee_upload_loop E baseUrl (token opts) releaseId
                                \<lparr>successCount = 0, skipCount = 0, failCount = 0\<rparr>
                                (tr @ [rq]) (assetFiles opts) of
                           (cnt, tr') \<Rightarrow>
                             (Inr (),
                              tr' @ [Console_summary (successCount cnt) (skipCount cnt)
                                       (failCount cnt)]))))
      else (Inr (), tr))"

text \<open>The constant \<open>baseUrl\<close> of the adapter.\<close>

definition baseUrl_of :: "'a gitee_options_scheme \<Rightarrow> string" where
  "baseUrl_of opts = ''https://gitee.com/api/v5/repos/'' @ owner opts @ ''/'' @ repo opts"

text \<open>
  \<open>publishGiteeRelease\<close>: steps 1 to 4 in sequence; the outer \<open>catch\<close> logs and throws the
  error again, so the first failing step ends the run.
\<close>

definition publishGiteeRelease ::
  "env \<Rightarrow> 'a gitee_options_scheme \<Rightarrow> event list \<Rightarrow> (js_error + unit) \<times> event list" where
  "publishGiteeRelease E opts tr =
     (let baseUrl = baseUrl_of opts
      in case gitee_step1 E baseUrl opts (tr @ [Enter_publishGiteeRelease]) of
           (Inl error, tr1) \<Rightarrow> (Inl error, tr1)
         | (Inr _, tr1) \<Rightarrow>
             (let rq = Axios_post_releases baseUrl (token opts) (tag opts) (releaseName opts)
                         (body opts) (if prerelease opts then ''true'' else ''false'')
                         (targetCommitish opts)
              in case respond E tr1 rq of
                   Inl releaseError \<Rightarrow> (Inl releaseError, tr1 @ [rq])
                 | Inr _ \<Rightarrow> gitee_step4 E baseUrl opts (tr1 @ [rq])))"

section \<open>platforms/index and the entry point\<close>

text \<open>
  \<open>platforms\<close> is the object exported by \<open>platforms/index.js\<close>, read with
  \<open>platforms[platform]\<close>. The object literal has the two own properties \<open>github\<close> and
  \<open>gitee\<close>; a property it does not own is looked up in \<open>Object.prototype\<close>, whose
  members are listed in \<open>object_prototype_keys\<close>. Every entry is a function or an object,
  so \<open>!platforms[platform]\<close> holds exactly when the lookup gives \<open>None\<close>.
\<close>

datatype platform_entry = PublishGitHubRelease | PublishGiteeRelease | Object_prototype_member

definition object_prototype_keys :: "string list" where
  "object_prototype_keys =
     [''constructor'', ''__defineGetter__'', ''__defineSetter__'', ''hasOwnProperty'',
      ''__lookupGetter__'', ''__lookupSetter__'', ''isPrototypeOf'', ''propertyIsEnumerable'',
      ''toString'', ''valueOf'', ''__proto__'', ''toLocaleString'']"

definition platforms :: "string \<Rightarrow> platform_entry option" where
  "platforms key =
     (if key = ''github'' then Some PublishGitHubRelease
      else if key = ''gitee'' then Some PublishGiteeRelease
      else if key \<in> set object_prototype_keys then Some Object_prototype_member
      else None)"

text \<open>The platform list of step 1: split at commas, trim, lowercase, drop the empty.\<close>

definition syncPlatforms_of :: "env \<Rightarrow> string \<Rightarrow> string list" where
  "syncPlatforms_of E platformsInput =
     filter (\<lambda>item. item \<noteq> [])
       (map (\<lambda>item. toLowerCase (unicode_toLowerCase E) (trim item))
          (split_char CHR '','' platformsInput))"

definition try_bind :: "js_error + 'a \<Rightarrow> ('a \<Rightarrow> js_error + 'b) \<Rightarrow> js_error + 'b" where
  "try_bind r f = (case r of Inl error \<Rightarrow> Inl error | Inr x \<Rightarrow> f x)"

text \<open>
  Step 1 of \<open>main\<close>: the inputs in the order the source reads them, with the asset
  files resolved right after their input is read; a reader or a resolver that throws
  ends the step. The result is the platform list and the two option objects that step 3
  passes to the adapters.
\<close>

definition main_inputs :: "env \<Rightarrow> js_error + string list \<times> github_options \<times> gitee_options" where
  "main_inputs E =
     try_bind (getInput E ''platforms'' True) (\<lambda>platformsInput.
     try_bind (getInput E ''tag'' True) (\<lambda>tg.
     try_bind (getInput E ''release-name'' True) (\<lambda>rn.
     try_bind (getInput E ''release-body'' False) (\<lambda>bd.
     try_bind (getBooleanInput E ''draft'' False) (\<lambda>dr.
     try_bind (getBooleanInput E ''prerelease'' False) (\<lambda>pr.
     try_bind (getInput E ''asset-files'' False) (\<lambda>assetInput.
     try_bind (resolveAssetFiles (file_sys E) assetInput) (\<lambda>files.
     try_bind (getInput E ''github-token'' False) (\<lambda>githubToken.
     try_bind (getInput E ''gitee-token'' False) (\<lambda>giteeToken.
     try_bind (getInput E ''gitee-owner'' False) (\<lambda>giteeOwner.
     try_bind (getInput E ''gitee-repo'' False) (\<lambda>giteeRepo.
     try_bind (getInput E ''gitee-target-commitish'' False) (\<lambda>giteeTargetCommitish.
       Inr (syncPlatforms_of E platformsInput,
            \<lparr>token = githubToken, tag = tg, releaseName = rn, body = bd, prerelease = pr,
             assetFiles = files, draft = dr\<rparr>,
            \<lparr>token = giteeToken, tag = tg, releaseName = rn, body = bd, prerelease = pr,
             assetFiles = files,
             owner = giteeOwner, repo = giteeRepo,
             targetCommitish = giteeTargetCommitish\<rparr>))))))))))))))"

text \<open>
  Step 2, the validation loop: the message of the first platform that fails a check, or
  \<open>None\<close> when every platform passes. An empty string is falsy.
\<close>

fun main_validate :: "string \<Rightarrow> string \<Rightarrow> string \<Rightarrow> string \<Rightarrow> string list \<Rightarrow> string option" where
  "main_validate githubToken giteeToken giteeOwner giteeRepo [] = None"
| "main_validate githubToken giteeToken giteeOwner giteeRepo (platform # rest) =
     (if platforms platform = None
      then Some (''Unsupported platform: '' @ platform @
                 ''. Please check your 'platforms' input parameter and ensure it contains only supported values.'')
      else if platform = ''github'' \<and> githubToken = []
      then Some (''GitHub platform is specified, but required 'github-token' input parameter is missing. '' @
                 ''Please provide a valid GitHub personal access token.'')
      else if platform = ''gitee'' \<and> (giteeToken = [] \<or> giteeOwner = [] \<or> giteeRepo = [])
      then Some (''Gitee platform is specified, but some required parameters are missing. '' @
                 ''Please provide valid 'gitee-token', 'gitee-owner', and 'gitee-repo' input parameters.'')
      else main_validate githubToken giteeToken giteeOwner giteeRepo rest)"

text \<open>
  Step 3, the execution loop: the \<open>switch\<close> on the platform. An adapter that throws
  leaves the loop with the error; the \<open>default\<close> case warns and goes on.
\<close>

fun main_execute ::
  "env \<Rightarrow> github_options \<Rightarrow> gitee_options \<Rightarrow> event list \<Rightarrow> string list
     \<Rightarrow> (js_error + unit) \<times> event list" where
  "main_execute E gh ge tr [] = (Inr (), tr)"
| "main_execute E gh ge tr (platform # rest) =
     (if platform = ''github''
      then (case publishGitHubRelease E gh tr of
              (Inl error, tr') \<Rightarrow> (Inl error, tr')
            | (Inr _, tr') \<Rightarrow> main_execute E gh ge tr' rest)
      else if platform = ''gitee''
      then (case publishGiteeRelease E ge tr of
              (Inl error, tr') \<Rightarrow> (Inl error, tr')
            | (Inr _, tr') \<Rightarrow> main_execute E gh ge tr' rest)
      else main_execute E gh ge tr rest)"

definition main_try :: "env \<Rightarrow> event list \<Rightarrow> (js_error + unit) \<times> event list" where
  "main_try E tr =
     (case main_inputs E of
        Inl error \<Rightarrow> (Inl error, tr)
      | Inr (syncPlatforms, gh, ge) \<Rightarrow>
          (case main_validate (token gh) (token ge) (owner ge) (repo ge) syncPlatforms of
             Some errorMessage \<Rightarrow> (Inr (), tr @ [Core_setFailed errorMessage])
           | None \<Rightarrow> main_execute E gh ge tr syncPlatforms))"

text \<open>\<open>main\<close>: the \<open>catch\<close> of the workflow reports the error with \<open>core.setFailed\<close>.\<close>

definition main :: "env \<Rightarrow> event list" where
  "main E =
     (case main_try E [] of
        (Inl error, tr) \<Rightarrow>
          tr @ [Core_setFailed (''Release synchronization failed: '' @ message error)]
      | (Inr _, tr) \<Rightarrow> tr)"

section \<open>Observations on a trace\<close>

text \<open>The assets whose processing was started: one \<open>fs.stat\<close> per call of \<open>getFileInfo\<close>.\<close>

fun attempted :: "event list \<Rightarrow> string list" where
  "attempted [] = []"
| "attempted (Fs_stat p # tr) = p # attempted tr"
| "attempted (ev # tr) = attempted tr"

fun is_tag_create :: "event \<Rightarrow> bool" where
  "is_tag_create (Axios_post_tags b t n r) = True"
| "is_tag_create ev = False"

fun is_release_lookup :: "event \<Rightarrow> bool" where
  "is_release_lookup (Axios_get_release_by_tag b t a) = True"
| "is_release_lookup ev = False"

fun is_adapter_entry :: "event \<Rightarrow> bool" where
  "is_adapter_entry Enter_publishGitHubRelease = True"
| "is_adapter_entry Enter_publishGiteeRelease = True"
| "is_adapter_entry ev = False"

text \<open>The adapter entries that a list of platforms asks for, in order.\<close>

fun expected_entries :: "string list \<Rightarrow> event list" where
  "expected_entries [] = []"
| "expected_entries (platform # rest) =
     (if platform = ''github'' then Enter_publishGitHubRelease # expected_entries rest
      else if platform = ''gitee'' then Enter_publishGiteeRelease # expected_entries rest
      else expected_entries rest)"

text \<open>The repository a call of the Octokit client is addressed to.\<close>

fun octokit_target :: "event \<Rightarrow> (string \<times> string) option" where
  "octokit_target (Octokit_createRelease ow rp t n b d p) = Some (ow, rp)"
| "octokit_target (Octokit_uploadReleaseAsset ow rp i n d) = Some (ow, rp)"
| "octokit_target ev = None"

text \<open>The calls made for one asset: reading the file and uploading it.\<close>

fun is_upload :: "event \<Rightarrow> bool" where
  "is_upload (Octokit_uploadReleaseAsset ow rp i n d) = True"
| "is_upload (Axios_post_attach_files b i t n k c) = True"
| "is_upload ev = False"

fun is_asset_event :: "event \<Rightarrow> bool" where
  "is_asset_event (Fs_stat p) = True"
| "is_asset_event (Fs_readFile p) = True"
| "is_asset_event ev = is_upload ev"

text \<open>
  \<open>count_calls P tr suf\<close> counts the events of \<open>suf\<close>, a continuation of the trace \<open>tr\<close>,
  that satisfy \<open>P\<close> given the trace before them. The three properties below classify a
  call by the answer it gets: a read of the file system that fails, an upload call that
  is rejected, an upload call that is accepted.
\<close>

fun count_calls :: "(event list \<Rightarrow> event \<Rightarrow> bool) \<Rightarrow> event list \<Rightarrow> event list \<Rightarrow> nat" where
  "count_calls P tr [] = 0"
| "count_calls P tr (ev # suf) = (if P tr ev then 1 else 0) + count_calls P (tr @ [ev]) suf"

fun read_failed :: "env \<Rightarrow> event list \<Rightarrow> event \<Rightarrow> bool" where
  "read_failed E tr (Fs_stat p) = (case fs_stat E tr p of Inl e \<Rightarrow> True | Inr v \<Rightarrow> False)"
| "read_failed E tr (Fs_readFile p) = (case fs_readFile E tr p of Inl e \<Rightarrow> True | Inr v \<Rightarrow> False)"
| "read_failed E tr ev = False"

definition upload_rejected :: "env \<Rightarrow> event list \<Rightarrow> event \<Rightarrow> bool" where
  "upload_rejected E tr ev =
     (is_upload ev \<and> (case respond E tr ev of Inl e \<Rightarrow> True | Inr v \<Rightarrow> False))"

definition upload_accepted :: "env \<Rightarrow> event list \<Rightarrow> event \<Rightarrow> bool" where
  "upload_accepted E tr ev =
     (is_upload ev \<and> (case respond E tr ev of Inl e \<Rightarrow> False | Inr v \<Rightarrow> True))"



section \<open>Scenarios\<close>

text \<open>
  Concrete surroundings for the scenarios of section 8 of the specification. The inputs
  are a function from input names to values; \<open>getInput\<close> throws for a required input
  that is empty, and \<open>getBooleanInput\<close> throws unless the value is one of the six
  spellings of \<open>true\<close> and \<open>false\<close> that \<open>@actions/core\<close> accepts. Every pattern
  matches the path of its own name, \<open>path.basename\<close> gives what follows the last
  slash, the file \<open>/w/locked.bin\<close> cannot be read, the repository of the workflow is
  \<open>octo/demo\<close>, and the case conversion beyond ASCII is left as the identity.
\<close>

definition ok_release :: response where
  "ok_release = Response (Some \<lparr>data_id = Some 7, data_html_url = ''https://example.org/releases/7''\<rparr>)"

definition scenario_env ::
  "(string \<Rightarrow> string) \<Rightarrow> (event list \<Rightarrow> event \<Rightarrow> js_error + response) \<Rightarrow> env" where
  "scenario_env inputs net =
     \<lparr>getInput = (\<lambda>name required.
        if required \<and> inputs name = []
        then Inl (JsError (''Input required and not supplied: '' @ name) None)
        else Inr (inputs name)),
      getBooleanInput = (\<lambda>name required.
        if required \<and> inputs name = []
        then Inl (JsError (''Input required and not supplied: '' @ name) None)
        else if inputs name \<in> set [''true'', ''True'', ''TRUE''] then Inr True
        else if inputs name \<in> set [''false'', ''False'', ''FALSE''] then Inr False
        else Inl (JsError (''Input does not meet YAML 1.2 Core Schema specification: '' @ name)
                    None)),
      file_sys = \<lparr>glob_sync = (\<lambda>pattern. Inr [pattern]), existsSync = (\<lambda>p. True)\<rparr>,
      path_basename = (\<lambda>p. rev (takeWhile (\<lambda>c. c \<noteq> CHR ''/'') (rev p))),
      fs_stat = (\<lambda>tr p. if p = ''/w/locked.bin'' then Inl (JsError ''EACCES'' None) else Inr 3),
      fs_readFile = (\<lambda>tr p. Inr ''abc''),
      getOctokit = (\<lambda>t. Inr ()),
      context_repo = Inr (''octo'', ''demo''),
      respond = net,
      unicode_toLowerCase = (\<lambda>s. s)\<rparr>"

text \<open>Networks: every call succeeds; the tag probe answers 404; the tag probe times
  out; the upload of \<open>b.bin\<close> is rejected; the creation of the GitHub release is
  rejected.\<close>

definition net_ok :: "event list \<Rightarrow> event \<Rightarrow> js_error + response" where
  "net_ok tr rq = Inr ok_release"

fun net_probe_404 :: "event list \<Rightarrow> event \<Rightarrow> js_error + response" where
  "net_probe_404 tr (Axios_get_tag b t a) =
     Inl (JsError ''Request failed with status code 404'' (Some 404))"
| "net_probe_404 tr rq = Inr ok_release"

fun net_probe_timeout :: "event list \<Rightarrow> event \<Rightarrow> js_error + response" where
  "net_probe_timeout tr (Axios_get_tag b t a) = Inl (JsError ''timeout of 30000ms exceeded'' None)"
| "net_probe_timeout tr rq = Inr ok_release"

fun net_upload_b_fails :: "event list \<Rightarrow> event \<Rightarrow> js_error + response" where
  "net_upload_b_fails tr (Octokit_uploadReleaseAsset ow rp i n d) =
     (if n = ''b.bin'' then Inl (JsError ''socket hang up'' None) else Inr ok_release)"
| "net_upload_b_fails tr (Axios_post_attach_files b i t n k c) =
     (if n = ''b.bin'' then Inl (JsError ''socket hang up'' None) else Inr ok_release)"
| "net_upload_b_fails tr rq = Inr ok_release"

fun net_github_create_fails :: "event list \<Rightarrow> event \<Rightarrow> js_error + response" where
  "net_github_create_fails tr (Octokit_createRelease ow rp t n b d p) =
     Inl (JsError ''Validation Failed'' (Some 422))"
| "net_github_create_fails tr rq = Inr ok_release"

definition no_inputs :: "string \<Rightarrow> string" where
  "no_inputs name = []"

definition inputs_of :: "(string \<times> string) list \<Rightarrow> string \<Rightarrow> string" where
  "inputs_of kv name = (case map_of kv name of None \<Rightarrow> [] | Some v \<Rightarrow> v)"

text \<open>
  Inputs with the defaults of the action for \<open>draft\<close> and \<open>prerelease\<close>.
\<close>

definition action_inputs :: "(string \<times> string) list \<Rightarrow> string \<Rightarrow> string" where
  "action_inputs kv = inputs_of (kv @ [(''draft'', ''false''), (''prerelease'', ''false'')])"



definition github_scenario :: "string list \<Rightarrow> github_options" where
  "github_scenario files =
     \<lparr>token = ''ghp'', tag = ''v1.0.0'', releaseName = ''Release 1'', body = ''notes'',
      prerelease = False, assetFiles = files, draft = False\<rparr>"

definition gitee_scenario :: "string list \<Rightarrow> gitee_options" where
  "gitee_scenario files =
     \<lparr>token = ''gtk'', tag = ''v1.0.0'', releaseName = ''Release 1'', body = ''notes'',
      prerelease = False, assetFiles = files,
      owner = ''acme'', repo = ''app'', targetCommitish = ''master''\<rparr>"

section \<open>Traces of the asset loops\<close>

lemma attempted_append: "attempted (xs @ ys) = attempted xs @ attempted ys"
  by (induction xs rule: attempted.induct) simp_all

lemma getFileInfo_suffix:
  assumes "getFileInfo E tr p = (r, tr1)"
  shows "\<exists>suf. tr1 = tr @ suf \<and> attempted suf = [p] \<and> (\<forall>ev\<in>set suf. is_asset_event ev \<and> \<not> is_upload ev)"
  using assms by (auto simp: getFileInfo_def Let_def split: sum.splits)

lemma gitee_upload_loop_suffix:
  "gitee_upload_loop E b tk rid cnt tr files = (cnt', tr') \<Longrightarrow>
     \<exists>suf. tr' = tr @ suf \<and> attempted suf = files \<and> (\<forall>ev\<in>set suf. is_asset_event ev)
       \<and> length (filter is_upload suf) + skipCount cnt' = skipCount cnt + length files
       \<and> successCount cnt' + failCount cnt' = successCount cnt + failCount cnt + length (filter is_upload suf)"
proof (induction files arbitrary: cnt tr)
  case Nil
  then show ?case by simp
next
  case (Cons f files)
  obtain r tr1 where g: "getFileInfo E tr f = (r, tr1)" by (cases "getFileInfo E tr f")
  from getFileInfo_suffix [OF g] obtain s1 where
    s1: "tr1 = tr @ s1" "attempted s1 = [f]" "\<forall>ev\<in>set s1. is_asset_event ev \<and> \<not> is_upload ev"
    by blast
  then have nu: "filter is_upload s1 = []" by (simp add: filter_empty_conv)
  show ?case
  proof (cases r)
    case None
    with Cons.prems g have "gitee_upload_loop E b tk rid (cnt\<lparr>skipCount := skipCount cnt + 1\<rparr>) tr1 files = (cnt', tr')"
      by simp
    from Cons.IH [OF this] obtain s2 where
      s2: "tr' = tr1 @ s2" "attempted s2 = files" "\<forall>ev\<in>set s2. is_asset_event ev"
        "length (filter is_upload s2) + skipCount cnt' = skipCount cnt + 1 + length files"
        "successCount cnt' + failCount cnt' = successCount cnt + failCount cnt + length (filter is_upload s2)"
      by auto
    show ?thesis
      by (rule exI [of _ "s1 @ s2"]) (use s1 s2 nu in \<open>auto simp: attempted_append\<close>)
  next
    case (Some fi)
    let ?rq = "Axios_post_attach_files b rid tk (file_name fi) (file_size fi) (file_content fi)"
    obtain c1 where c1: "gitee_upload_loop E b tk rid c1 (tr1 @ [?rq]) files = (cnt', tr')"
      "skipCount c1 = skipCount cnt" "successCount c1 + failCount c1 = successCount cnt + failCount cnt + 1"
      using Cons.prems g Some by (cases "respond E tr1 ?rq") (auto simp: Let_def)
    from Cons.IH [OF c1(1)] obtain s2 where
      s2: "tr' = (tr1 @ [?rq]) @ s2" "attempted s2 = files" "\<forall>ev\<in>set s2. is_asset_event ev"
        "length (filter is_upload s2) + skipCount cnt' = skipCount c1 + length files"
        "successCount cnt' + failCount cnt' = successCount c1 + failCount c1 + length (filter is_upload s2)"
      by auto
    show ?thesis
      by (rule exI [of _ "s1 @ ?rq # s2"]) (use s1 s2 nu c1 in \<open>auto simp: attempted_append\<close>)
  qed
qed

section \<open>Traces of the Gitee adapter\<close>

lemma filter_suffix_none:
  "\<forall>ev\<in>set suf. \<not> P ev \<Longrightarrow> filter P (tr @ suf) = filter P tr"
  by (simp add: filter_empty_conv)

lemma gitee_step4_suffix:
  assumes "gitee_step4 E b opts tr = (r, tr')"
  shows "\<exists>suf. tr' = tr @ suf \<and>
           (\<forall>ev\<in>set suf. is_release_lookup ev \<or> is_asset_event ev \<or> (\<exists>s k f. ev = Console_summary s k f))
           \<and> (case r of Inl e \<Rightarrow> (\<forall>ev\<in>set suf. \<not> is_asset_event ev)
                        | Inr u \<Rightarrow> attempted suf = assetFiles opts)"
proof (cases "assetFiles opts = []")
  case True
  with assms show ?thesis by (auto simp: gitee_step4_def)
next
  case False
  let ?rq = "Axios_get_release_by_tag b (tag opts) (token opts)"
  show ?thesis
  proof (cases "respond E tr ?rq")
    case (Inl e)
    with assms False show ?thesis by (auto simp: gitee_step4_def Let_def)
  next
    case (Inr v)
    show ?thesis
    proof (cases "response_release_id v")
      case None
      with assms False Inr show ?thesis by (auto simp: gitee_step4_def Let_def)
    next
      case (Some rid)
      obtain cnt tr2 where l: "gitee_upload_loop E b (token opts) rid
          \<lparr>successCount = 0, skipCount = 0, failCount = 0\<rparr> (tr @ [?rq]) (assetFiles opts) = (cnt, tr2)"
        by (cases "gitee_upload_loop E b (token opts) rid
          \<lparr>successCount = 0, skipCount = 0, failCount = 0\<rparr> (tr @ [?rq]) (assetFiles opts)")
      from gitee_upload_loop_suffix [OF l] obtain s2 where
        s2: "tr2 = (tr @ [?rq]) @ s2" "attempted s2 = assetFiles opts" "\<forall>ev\<in>set s2. is_asset_event ev"
        by blast
      from assms False Inr Some l
      have "r = Inr ()" "tr' = tr2 @ [Console_summary (successCount cnt) (skipCount cnt) (failCount cnt)]"
        by (auto simp: gitee_step4_def Let_def)
      with s2 show ?thesis
        by (intro exI [of _ "?rq # s2 @ [Console_summary (successCount cnt) (skipCount cnt) (failCount cnt)]"])
           (auto simp: attempted_append)
    qed
  qed
qed

lemma gitee_step1_cases:
  "gitee_step1 E b opts tr =
     (case respond E tr (Axios_get_tag b (tag opts) (token opts)) of
        Inr v \<Rightarrow> (Inr (), tr @ [Axios_get_tag b (tag opts) (token opts)])
      | Inl e \<Rightarrow>
          if response_status e = Some 404
          then (case respond E (tr @ [Axios_get_tag b (tag opts) (token opts)])
                       (Axios_post_tags b (token opts) (tag opts) (targetCommitish opts)) of
                  Inl e' \<Rightarrow> Inl e' | Inr v \<Rightarrow> Inr (),
                tr @ [Axios_get_tag b (tag opts) (token opts),
                      Axios_post_tags b (token opts) (tag opts) (targetCommitish opts)])
          else (Inl e, tr @ [Axios_get_tag b (tag opts) (token opts)]))"
  by (auto simp: gitee_step1_def Let_def split: sum.splits)


lemma attempted_no_asset: "\<forall>ev\<in>set xs. \<not> is_asset_event ev \<Longrightarrow> attempted xs = []"
  by (induction xs rule: attempted.induct) simp_all

lemma gitee_step1_suffix:
  assumes "gitee_step1 E b opts tr = (r, tr')"
  shows "\<exists>suf. tr' = tr @ suf \<and> (\<forall>ev\<in>set suf. \<not> is_asset_event ev \<and> \<not> is_adapter_entry ev \<and> \<not> is_release_lookup ev)"
  using assms by (auto simp: gitee_step1_cases split: sum.splits if_splits)

lemma publishGiteeRelease_trace:
  assumes "publishGiteeRelease E opts tr = (r, tr')"
  shows "\<exists>suf. tr' = tr @ Enter_publishGiteeRelease # suf \<and>
           (\<forall>ev\<in>set suf. \<not> is_adapter_entry ev) \<and>
           (case r of Inl e \<Rightarrow> (\<forall>ev\<in>set suf. \<not> is_asset_event ev)
                    | Inr u \<Rightarrow> attempted suf = assetFiles opts)"
proof -
  let ?b = "baseUrl_of opts"
  obtain r1 tr1 where s1: "gitee_step1 E ?b opts (tr @ [Enter_publishGiteeRelease]) = (r1, tr1)"
    by (cases "gitee_step1 E ?b opts (tr @ [Enter_publishGiteeRelease])")
  from gitee_step1_suffix [OF s1] obtain p1 where
    p1: "tr1 = (tr @ [Enter_publishGiteeRelease]) @ p1"
        "\<forall>ev\<in>set p1. \<not> is_asset_event ev \<and> \<not> is_adapter_entry ev \<and> \<not> is_release_lookup ev"
    by blast
  then have a1: "attempted p1 = []"
    by (simp add: attempted_no_asset)
  let ?rq = "Axios_post_releases ?b (token opts) (tag opts) (releaseName opts)
               (body opts) (if prerelease opts then ''true'' else ''false'') (targetCommitish opts)"
  show ?thesis
  proof (cases r1)
    case (Inl e)
    with assms s1 have "r = Inl e" "tr' = tr1" by (auto simp: publishGiteeRelease_def Let_def)
    with p1 show ?thesis by (intro exI [of _ p1]) auto
  next
    case (Inr u)
    show ?thesis
    proof (cases "respond E tr1 ?rq")
      case (Inl e)
      with assms s1 \<open>r1 = Inr u\<close> have "r = Inl e" "tr' = tr1 @ [?rq]"
        by (auto simp: publishGiteeRelease_def Let_def)
      with p1 show ?thesis by (intro exI [of _ "p1 @ [?rq]"]) auto
    next
      case (Inr v)
      with assms s1 \<open>r1 = Inr u\<close> have "gitee_step4 E ?b opts (tr1 @ [?rq]) = (r, tr')"
        by (auto simp: publishGiteeRelease_def Let_def)
      from gitee_step4_suffix [OF this] obtain suf where
        s: "tr' = (tr1 @ [?rq]) @ suf"
           "\<forall>ev\<in>set suf. is_release_lookup ev \<or> is_asset_event ev \<or> (\<exists>s k f. ev = Console_summary s k f)"
           "case r of Inl e \<Rightarrow> (\<forall>ev\<in>set suf. \<not> is_asset_event ev)
                    | Inr u \<Rightarrow> attempted suf = assetFiles opts"
        by blast
      have "\<forall>ev\<in>set suf. \<not> is_adapter_entry ev"
      proof
        fix ev assume "ev \<in> set suf"
        with s(2) have "is_release_lookup ev \<or> is_asset_event ev \<or> (\<exists>s k f. ev = Console_summary s k f)"
          by blast
        then show "\<not> is_adapter_entry ev" by (cases ev) auto
      qed
      with s p1 a1 show ?thesis
        by (intro exI [of _ "p1 @ ?rq # suf"]) (auto simp: attempted_append split: sum.splits)
    qed
  qed
qed

lemmas scenario_defs = scenario_env_def no_inputs_def gitee_scenario_def github_scenario_def
  ok_release_def net_ok_def
lemmas gitee_defs = publishGiteeRelease_def gitee_step1_def gitee_step4_def baseUrl_of_def
  response_release_id_def getFileInfo_def Let_def

section \<open>The reconciling adapter\<close>

text \<open>
  Claim C3. The tag reconciliation of the Gitee adapter is decided by the answer to the
  probe, for every run of the adapter from any trace: when the probe finds the tag, the
  run creates no tag; when the probe fails with status 404, the run creates exactly one
  tag, with \<open>refs\<close> the \<open>targetCommitish\<close> of the request; when the probe fails in any
  other way (a network error or a timeout has no status), the run ends with that error
  right after the probe, so no tag creation is attempted.
\<close>

theorem gitee_tag_reconciliation:
  assumes run: "publishGiteeRelease E opts tr = (r, tr')"
  shows "case respond E (tr @ [Enter_publishGiteeRelease])
                (Axios_get_tag (baseUrl_of opts) (tag opts) (token opts)) of
           Inr found \<Rightarrow> filter is_tag_create tr' = filter is_tag_create tr
         | Inl e \<Rightarrow>
             if response_status e = Some 404
             then filter is_tag_create tr' =
                    filter is_tag_create tr @
                    [Axios_post_tags (baseUrl_of opts) (token opts) (tag opts) (targetCommitish opts)]
             else r = Inl e \<and>
                  tr' = tr @ [Enter_publishGiteeRelease,
                              Axios_get_tag (baseUrl_of opts) (tag opts) (token opts)]"
proof -
  let ?b = "baseUrl_of opts"
  let ?tr0 = "tr @ [Enter_publishGiteeRelease]"
  let ?probe = "Axios_get_tag ?b (tag opts) (token opts)"
  let ?mk = "Axios_post_tags ?b (token opts) (tag opts) (targetCommitish opts)"
  obtain r1 tr1 where s1: "gitee_step1 E ?b opts ?tr0 = (r1, tr1)"
    by (cases "gitee_step1 E ?b opts ?tr0")
  have rest: "filter is_tag_create tr' = filter is_tag_create tr1"
  proof (cases r1)
    case (Inl e)
    with run s1 show ?thesis by (simp add: publishGiteeRelease_def Let_def)
  next
    case (Inr u)
    let ?rq = "Axios_post_releases ?b (token opts) (tag opts) (releaseName opts)
               (body opts) (if prerelease opts then ''true'' else ''false'') (targetCommitish opts)"
    show ?thesis
    proof (cases "respond E tr1 ?rq")
      case (Inl e)
      with run s1 \<open>r1 = Inr u\<close> show ?thesis by (auto simp: publishGiteeRelease_def Let_def)
    next
      case (Inr v)
      with run s1 \<open>r1 = Inr u\<close> have "gitee_step4 E ?b opts (tr1 @ [?rq]) = (r, tr')"
        by (auto simp: publishGiteeRelease_def Let_def)
      from gitee_step4_suffix [OF this] obtain suf where
        s: "tr' = (tr1 @ [?rq]) @ suf"
           "\<forall>ev\<in>set suf. is_release_lookup ev \<or> is_asset_event ev \<or> (\<exists>s k f. ev = Console_summary s k f)"
        by blast
      have "\<forall>ev\<in>set suf. \<not> is_tag_create ev"
      proof
        fix ev assume "ev \<in> set suf"
        with s(2) have "is_release_lookup ev \<or> is_asset_event ev \<or> (\<exists>s k f. ev = Console_summary s k f)"
          by blast
        then show "\<not> is_tag_create ev" by (cases ev) auto
      qed
      with s(1) show ?thesis by (simp add: filter_empty_conv)
    qed
  qed
  show ?thesis
  proof (cases "respond E ?tr0 ?probe")
    case (Inr found)
    with s1 have "tr1 = ?tr0 @ [?probe]" by (simp add: gitee_step1_cases)
    with rest Inr show ?thesis by simp
  next
    case (Inl e)
    show ?thesis
    proof (cases "response_status e = Some 404")
      case True
      with s1 Inl have "tr1 = ?tr0 @ [?probe, ?mk]" by (simp add: gitee_step1_cases)
      with rest Inl True show ?thesis by simp
    next
      case False
      with s1 Inl have "r1 = Inl e" "tr1 = ?tr0 @ [?probe]" by (simp_all add: gitee_step1_cases)
      with run s1 have "r = Inl e" "tr' = ?tr0 @ [?probe]"
        by (simp_all add: publishGiteeRelease_def Let_def)
      with Inl False show ?thesis by simp
    qed
  qed
qed

lemma scenario_probe_404_run:
  "publishGiteeRelease (scenario_env no_inputs net_probe_404) (gitee_scenario []) [] =
     (Inr (),
      [Enter_publishGiteeRelease,
       Axios_get_tag ''https://gitee.com/api/v5/repos/acme/app'' ''v1.0.0'' ''gtk'',
       Axios_post_tags ''https://gitee.com/api/v5/repos/acme/app'' ''gtk'' ''v1.0.0'' ''master'',
       Axios_post_releases ''https://gitee.com/api/v5/repos/acme/app'' ''gtk'' ''v1.0.0''
         ''Release 1'' ''notes'' ''false'' ''master''])"
  by (simp add: scenario_defs gitee_defs)

lemma scenario_probe_timeout_run:
  "publishGiteeRelease (scenario_env no_inputs net_probe_timeout) (gitee_scenario []) [] =
     (Inl (JsError ''timeout of 30000ms exceeded'' None),
      [Enter_publishGiteeRelease,
       Axios_get_tag ''https://gitee.com/api/v5/repos/acme/app'' ''v1.0.0'' ''gtk''])"
  by (simp add: scenario_defs gitee_defs)

lemma scenario_tag_found_run:
  "publishGiteeRelease (scenario_env no_inputs net_ok) (gitee_scenario []) [] =
     (Inr (),
      [Enter_publishGiteeRelease,
       Axios_get_tag ''https://gitee.com/api/v5/repos/acme/app'' ''v1.0.0'' ''gtk'',
       Axios_post_releases ''https://gitee.com/api/v5/repos/acme/app'' ''gtk'' ''v1.0.0''
         ''Release 1'' ''notes'' ''false'' ''master''])"
  by (simp add: scenario_defs gitee_defs)

theorem gitee_tag_reconciliation_witness:
  "publishGiteeRelease (scenario_env no_inputs net_probe_404) (gitee_scenario []) [] =
     (Inr (),
      [Enter_publishGiteeRelease,
       Axios_get_tag ''https://gitee.com/api/v5/repos/acme/app'' ''v1.0.0'' ''gtk'',
       Axios_post_tags ''https://gitee.com/api/v5/repos/acme/app'' ''gtk'' ''v1.0.0'' ''master'',
       Axios_post_releases ''https://gitee.com/api/v5/repos/acme/app'' ''gtk'' ''v1.0.0''
         ''Release 1'' ''notes'' ''false'' ''master''])
   \<and> filter is_tag_create
        (snd (publishGiteeRelease (scenario_env no_inputs net_probe_404) (gitee_scenario []) [])) =
      [Axios_post_tags (baseUrl_of (gitee_scenario [])) (token (gitee_scenario []))
         (tag (gitee_scenario [])) (targetCommitish (gitee_scenario []))]
   \<and> filter is_tag_create
        (snd (publishGiteeRelease (scenario_env no_inputs net_ok) (gitee_scenario []) [])) = []
   \<and> publishGiteeRelease (scenario_env no_inputs net_probe_timeout) (gitee_scenario []) [] =
     (Inl (JsError ''timeout of 30000ms exceeded'' None),
      [Enter_publishGiteeRelease,
       Axios_get_tag (baseUrl_of (gitee_scenario [])) (tag (gitee_scenario []))
         (token (gitee_scenario []))])"
proof -
  have p404: "respond (scenario_env no_inputs net_probe_404) ([] @ [Enter_publishGiteeRelease])
      (Axios_get_tag (baseUrl_of (gitee_scenario [])) (tag (gitee_scenario []))
         (token (gitee_scenario []))) =
      Inl (JsError ''Request failed with status code 404'' (Some 404))"
    by (simp add: scenario_env_def)
  have pok: "respond (scenario_env no_inputs net_ok) ([] @ [Enter_publishGiteeRelease])
      (Axios_get_tag (baseUrl_of (gitee_scenario [])) (tag (gitee_scenario []))
         (token (gitee_scenario []))) = Inr ok_release"
    by (simp add: scenario_env_def net_ok_def)
  have pto: "respond (scenario_env no_inputs net_probe_timeout) ([] @ [Enter_publishGiteeRelease])
      (Axios_get_tag (baseUrl_of (gitee_scenario [])) (tag (gitee_scenario []))
         (token (gitee_scenario []))) = Inl (JsError ''timeout of 30000ms exceeded'' None)"
    by (simp add: scenario_env_def)
  from gitee_tag_reconciliation [OF scenario_probe_404_run] p404
  have a: "filter is_tag_create
        (snd (publishGiteeRelease (scenario_env no_inputs net_probe_404) (gitee_scenario []) [])) =
      [Axios_post_tags (baseUrl_of (gitee_scenario [])) (token (gitee_scenario []))
         (tag (gitee_scenario [])) (targetCommitish (gitee_scenario []))]"
    by (simp add: scenario_probe_404_run)
  from gitee_tag_reconciliation [OF scenario_tag_found_run] pok
  have b: "filter is_tag_create
        (snd (publishGiteeRelease (scenario_env no_inputs net_ok) (gitee_scenario []) [])) = []"
    by (simp add: scenario_tag_found_run)
  from gitee_tag_reconciliation [OF scenario_probe_timeout_run] pto
  have c: "publishGiteeRelease (scenario_env no_inputs net_probe_timeout) (gitee_scenario []) [] =
     (Inl (JsError ''timeout of 30000ms exceeded'' None),
      [Enter_publishGiteeRelease,
       Axios_get_tag (baseUrl_of (gitee_scenario [])) (tag (gitee_scenario []))
         (token (gitee_scenario []))])"
    by (simp add: scenario_probe_timeout_run)
  from scenario_probe_404_run a b c show ?thesis by simp
qed

lemma scenario_partial_uploads_run:
  "publishGiteeRelease (scenario_env no_inputs net_upload_b_fails)
     (gitee_scenario [''/w/a.bin'', ''/w/locked.bin'', ''/w/b.bin'', ''/w/c.bin'']) [] =
   (Inr (),
    [Enter_publishGiteeRelease,
     Axios_get_tag ''https://gitee.com/api/v5/repos/acme/app'' ''v1.0.0'' ''gtk'',
     Axios_post_releases ''https://gitee.com/api/v5/repos/acme/app'' ''gtk'' ''v1.0.0''
       ''Release 1'' ''notes'' ''false'' ''master'',
     Axios_get_release_by_tag ''https://gitee.com/api/v5/repos/acme/app'' ''v1.0.0'' ''gtk'',
     Fs_stat ''/w/a.bin'', Fs_readFile ''/w/a.bin'',
     Axios_post_attach_files ''https://gitee.com/api/v5/repos/acme/app'' 7 ''gtk'' ''a.bin'' 3 ''abc'',
     Fs_stat ''/w/locked.bin'',
     Fs_stat ''/w/b.bin'', Fs_readFile ''/w/b.bin'',
     Axios_post_attach_files ''https://gitee.com/api/v5/repos/acme/app'' 7 ''gtk'' ''b.bin'' 3 ''abc'',
     Fs_stat ''/w/c.bin'', Fs_readFile ''/w/c.bin'',
     Axios_post_attach_files ''https://gitee.com/api/v5/repos/acme/app'' 7 ''gtk'' ''c.bin'' 3 ''abc'',
     Console_summary 2 1 1])"
  by (simp add: scenario_defs gitee_defs)

lemma scenario_partial_uploads_step1:
  "gitee_step1 (scenario_env no_inputs net_upload_b_fails)
     (baseUrl_of (gitee_scenario [''/w/a.bin'', ''/w/locked.bin'', ''/w/b.bin'', ''/w/c.bin'']))
     (gitee_scenario [''/w/a.bin'', ''/w/locked.bin'', ''/w/b.bin'', ''/w/c.bin''])
     ([] @ [Enter_publishGiteeRelease]) =
   (Inr (), [Enter_publishGiteeRelease,
             Axios_get_tag ''https://gitee.com/api/v5/repos/acme/app'' ''v1.0.0'' ''gtk''])"
  by (simp add: scenario_defs gitee_defs)

text \<open>
  Claim C4, as stated, fails for an empty asset list: the run below creates the release
  and succeeds, and its trace holds no lookup of the release.
\<close>

theorem gitee_no_lookup_without_assets:
  "publishGiteeRelease (scenario_env no_inputs net_ok) (gitee_scenario []) [] =
     (Inr (),
      [Enter_publishGiteeRelease,
       Axios_get_tag ''https://gitee.com/api/v5/repos/acme/app'' ''v1.0.0'' ''gtk'',
       Axios_post_releases ''https://gitee.com/api/v5/repos/acme/app'' ''gtk'' ''v1.0.0''
         ''Release 1'' ''notes'' ''false'' ''master''])
   \<and> filter is_release_lookup
        (snd (publishGiteeRelease (scenario_env no_inputs net_ok) (gitee_scenario []) [])) = []"
  by (simp add: scenario_defs gitee_defs)

text \<open>
  Claim C4, amended. Take a run of the Gitee adapter whose tag reconciliation and
  release creation succeed. With an empty asset list the run ends successfully right
  after the release creation, without a lookup. With a non-empty asset list the lookup
  of the release by tag is the call right after the release creation, before anything
  is done for an asset, and it is the only lookup; when the lookup fails the run ends
  with that error, when its response has no usable identifier the run ends with an
  error, and in both cases nothing follows the lookup.
\<close>

theorem gitee_release_lookup:
  assumes step1: "gitee_step1 E (baseUrl_of opts) opts (tr @ [Enter_publishGiteeRelease]) = (Inr u, tr1)"
    and created: "respond E tr1
        (Axios_post_releases (baseUrl_of opts) (token opts) (tag opts) (releaseName opts)
           (body opts) (if prerelease opts then ''true'' else ''false'') (targetCommitish opts)) = Inr v"
    and run: "publishGiteeRelease E opts tr = (r, tr')"
  shows "if assetFiles opts = []
         then r = Inr () \<and>
              tr' = tr1 @ [Axios_post_releases (baseUrl_of opts) (token opts) (tag opts)
                            (releaseName opts) (body opts)
                            (if prerelease opts then ''true'' else ''false'') (targetCommitish opts)]
         else \<exists>suf.
              tr' = tr1 @ [Axios_post_releases (baseUrl_of opts) (token opts) (tag opts)
                            (releaseName opts) (body opts)
                            (if prerelease opts then ''true'' else ''false'') (targetCommitish opts),
                           Axios_get_release_by_tag (baseUrl_of opts) (tag opts) (token opts)] @ suf
              \<and> (\<forall>ev\<in>set suf. \<not> is_release_lookup ev)
              \<and> (case respond E
                         (tr1 @ [Axios_post_releases (baseUrl_of opts) (token opts) (tag opts)
                                   (releaseName opts) (body opts)
                                   (if prerelease opts then ''true'' else ''false'')
                                   (targetCommitish opts)])
                         (Axios_get_release_by_tag (baseUrl_of opts) (tag opts) (token opts)) of
                    Inl e \<Rightarrow> r = Inl e \<and> suf = []
                  | Inr resp \<Rightarrow>
                      (case response_release_id resp of
                         None \<Rightarrow> (\<exists>e. r = Inl e) \<and> suf = []
                       | Some i \<Rightarrow> r = Inr ()))"
proof -
  let ?b = "baseUrl_of opts"
  let ?rq = "Axios_post_releases ?b (token opts) (tag opts) (releaseName opts)
               (body opts) (if prerelease opts then ''true'' else ''false'') (targetCommitish opts)"
  let ?lk = "Axios_get_release_by_tag ?b (tag opts) (token opts)"
  from run step1 created have s4: "gitee_step4 E ?b opts (tr1 @ [?rq]) = (r, tr')"
    by (simp add: publishGiteeRelease_def Let_def)
  show ?thesis
  proof (cases "assetFiles opts = []")
    case True
    with s4 show ?thesis by (auto simp: gitee_step4_def)
  next
    case False
    show ?thesis
    proof (cases "respond E (tr1 @ [?rq]) ?lk")
      case (Inl e)
      with s4 False have "r = Inl e" "tr' = tr1 @ [?rq, ?lk] @ []"
        by (auto simp: gitee_step4_def Let_def)
      with False Inl show ?thesis by simp
    next
      case (Inr resp)
      show ?thesis
      proof (cases "response_release_id resp")
        case None
        with s4 False Inr have "\<exists>e. r = Inl e" "tr' = tr1 @ [?rq, ?lk] @ []"
          by (auto simp: gitee_step4_def Let_def)
        with False Inr None show ?thesis by simp
      next
        case (Some i)
        obtain cnt tr2 where l: "gitee_upload_loop E ?b (token opts) i
            \<lparr>successCount = 0, skipCount = 0, failCount = 0\<rparr> ((tr1 @ [?rq]) @ [?lk]) (assetFiles opts) = (cnt, tr2)"
          by (cases "gitee_upload_loop E ?b (token opts) i
            \<lparr>successCount = 0, skipCount = 0, failCount = 0\<rparr> ((tr1 @ [?rq]) @ [?lk]) (assetFiles opts)")
        from gitee_upload_loop_suffix [OF l] obtain s2 where
          s2: "tr2 = ((tr1 @ [?rq]) @ [?lk]) @ s2" "\<forall>ev\<in>set s2. is_asset_event ev"
          by blast
        let ?sm = "Console_summary (successCount cnt) (skipCount cnt) (failCount cnt)"
        from s4 False Inr Some l have r: "r = Inr ()" "tr' = tr2 @ [?sm]"
          by (auto simp: gitee_step4_def Let_def)
        have nl: "\<forall>ev\<in>set (s2 @ [?sm]). \<not> is_release_lookup ev"
        proof
          fix ev assume "ev \<in> set (s2 @ [?sm])"
          with s2(2) have "is_asset_event ev \<or> ev = ?sm" by auto
          then show "\<not> is_release_lookup ev" by (cases ev) auto
        qed
        from r s2 have "tr' = tr1 @ [?rq, ?lk] @ (s2 @ [?sm])" by simp
        with nl r False Inr Some show ?thesis
          by (simp del: set_append append_assoc)
      qed
    qed
  qed
qed

theorem gitee_release_lookup_witness:
  "gitee_step1 (scenario_env no_inputs net_upload_b_fails)
     (baseUrl_of (gitee_scenario [''/w/a.bin'', ''/w/locked.bin'', ''/w/b.bin'', ''/w/c.bin'']))
     (gitee_scenario [''/w/a.bin'', ''/w/locked.bin'', ''/w/b.bin'', ''/w/c.bin''])
     ([] @ [Enter_publishGiteeRelease]) =
   (Inr (), [Enter_publishGiteeRelease,
             Axios_get_tag ''https://gitee.com/api/v5/repos/acme/app'' ''v1.0.0'' ''gtk''])
   \<and> respond (scenario_env no_inputs net_upload_b_fails)
         [Enter_publishGiteeRelease,
          Axios_get_tag ''https://gitee.com/api/v5/repos/acme/app'' ''v1.0.0'' ''gtk'']
         (Axios_post_releases ''https://gitee.com/api/v5/repos/acme/app'' ''gtk'' ''v1.0.0''
            ''Release 1'' ''notes'' ''false'' ''master'') = Inr ok_release
   \<and> assetFiles (gitee_scenario [''/w/a.bin'', ''/w/locked.bin'', ''/w/b.bin'', ''/w/c.bin'']) \<noteq> []
   \<and> fst (publishGiteeRelease (scenario_env no_inputs net_upload_b_fails)
       (gitee_scenario [''/w/a.bin'', ''/w/locked.bin'', ''/w/b.bin'', ''/w/c.bin'']) []) = Inr ()
   \<and> filter is_release_lookup (snd (publishGiteeRelease (scenario_env no_inputs net_upload_b_fails)
       (gitee_scenario [''/w/a.bin'', ''/w/locked.bin'', ''/w/b.bin'', ''/w/c.bin'']) [])) =
      [Axios_get_release_by_tag ''https://gitee.com/api/v5/repos/acme/app'' ''v1.0.0'' ''gtk'']"
proof -
  have created: "respond (scenario_env no_inputs net_upload_b_fails)
         [Enter_publishGiteeRelease,
          Axios_get_tag ''https://gitee.com/api/v5/repos/acme/app'' ''v1.0.0'' ''gtk'']
         (Axios_post_releases
            (baseUrl_of (gitee_scenario [''/w/a.bin'', ''/w/locked.bin'', ''/w/b.bin'', ''/w/c.bin'']))
            (token (gitee_scenario [''/w/a.bin'', ''/w/locked.bin'', ''/w/b.bin'', ''/w/c.bin'']))
            (tag (gitee_scenario [''/w/a.bin'', ''/w/locked.bin'', ''/w/b.bin'', ''/w/c.bin'']))
            (releaseName (gitee_scenario [''/w/a.bin'', ''/w/locked.bin'', ''/w/b.bin'', ''/w/c.bin'']))
            (body (gitee_scenario [''/w/a.bin'', ''/w/locked.bin'', ''/w/b.bin'', ''/w/c.bin'']))
            (if prerelease (gitee_scenario [''/w/a.bin'', ''/w/locked.bin'', ''/w/b.bin'', ''/w/c.bin''])
             then ''true'' else ''false'')
            (targetCommitish (gitee_scenario [''/w/a.bin'', ''/w/locked.bin'', ''/w/b.bin'', ''/w/c.bin''])))
       = Inr ok_release"
    by (simp add: scenario_env_def)
  from gitee_release_lookup [OF scenario_partial_uploads_step1 created scenario_partial_uploads_run]
    scenario_partial_uploads_step1 created scenario_partial_uploads_run
  show ?thesis
    by (simp add: gitee_scenario_def baseUrl_of_def)
qed

lemma count_calls_append:
  "count_calls P tr (xs @ ys) = count_calls P tr xs + count_calls P (tr @ xs) ys"
  by (induction xs arbitrary: tr) simp_all

lemma count_calls_none:
  "(\<And>t ev. P t ev \<Longrightarrow> is_asset_event ev) \<Longrightarrow> \<forall>ev\<in>set xs. \<not> is_asset_event ev \<Longrightarrow>
     count_calls P tr xs = 0"
  by (induction xs arbitrary: tr) auto

lemma read_failed_asset: "read_failed E t ev \<Longrightarrow> is_asset_event ev"
  by (cases ev) auto

lemma upload_rejected_asset: "upload_rejected E t ev \<Longrightarrow> is_asset_event ev"
  by (cases ev) (auto simp: upload_rejected_def)

lemma upload_accepted_asset: "upload_accepted E t ev \<Longrightarrow> is_asset_event ev"
  by (cases ev) (auto simp: upload_accepted_def)

lemma getFileInfo_counts:
  assumes "getFileInfo E tr p = (r, tr1)"
  shows "\<exists>suf. tr1 = tr @ suf
           \<and> count_calls (read_failed E) tr suf = (if r = None then 1 else 0)
           \<and> count_calls (upload_rejected E) tr suf = 0
           \<and> count_calls (upload_accepted E) tr suf = 0"
  using assms
  by (auto simp: getFileInfo_def Let_def upload_rejected_def upload_accepted_def
      split: sum.splits)

lemma gitee_upload_loop_counts:
  "gitee_upload_loop E b tk rid cnt tr files = (cnt', tr') \<Longrightarrow>
     \<exists>suf. tr' = tr @ suf
       \<and> skipCount cnt' = skipCount cnt + count_calls (read_failed E) tr suf
       \<and> failCount cnt' = failCount cnt + count_calls (upload_rejected E) tr suf
       \<and> successCount cnt' = successCount cnt + count_calls (upload_accepted E) tr suf"
proof (induction files arbitrary: cnt tr)
  case Nil
  then show ?case by simp
next
  case (Cons f files)
  obtain r tr1 where g: "getFileInfo E tr f = (r, tr1)" by (cases "getFileInfo E tr f")
  from getFileInfo_counts [OF g] obtain s1 where
    s1: "tr1 = tr @ s1" "count_calls (read_failed E) tr s1 = (if r = None then 1 else 0)"
        "count_calls (upload_rejected E) tr s1 = 0" "count_calls (upload_accepted E) tr s1 = 0"
    by blast
  show ?case
  proof (cases r)
    case None
    with Cons.prems g
    have "gitee_upload_loop E b tk rid (cnt\<lparr>skipCount := skipCount cnt + 1\<rparr>) tr1 files = (cnt', tr')"
      by simp
    from Cons.IH [OF this] obtain s2 where
      s2: "tr' = tr1 @ s2"
          "skipCount cnt' = skipCount cnt + 1 + count_calls (read_failed E) tr1 s2"
          "failCount cnt' = failCount cnt + count_calls (upload_rejected E) tr1 s2"
          "successCount cnt' = successCount cnt + count_calls (upload_accepted E) tr1 s2"
      by auto
    show ?thesis
      by (rule exI [of _ "s1 @ s2"]) (use s1 s2 None in \<open>simp add: count_calls_append\<close>)
  next
    case (Some fi)
    let ?rq = "Axios_post_attach_files b rid tk (file_name fi) (file_size fi) (file_content fi)"
    have nr: "\<not> read_failed E tr1 ?rq" by simp
    show ?thesis
    proof (cases "respond E tr1 ?rq")
      case (Inl e)
      with Cons.prems g Some
      have "gitee_upload_loop E b tk rid (cnt\<lparr>failCount := failCount cnt + 1\<rparr>) (tr1 @ [?rq]) files = (cnt', tr')"
        by (simp add: Let_def)
      from Cons.IH [OF this] obtain s2 where
        s2: "tr' = (tr1 @ [?rq]) @ s2"
            "skipCount cnt' = skipCount cnt + count_calls (read_failed E) (tr1 @ [?rq]) s2"
            "failCount cnt' = failCount cnt + 1 + count_calls (upload_rejected E) (tr1 @ [?rq]) s2"
            "successCount cnt' = successCount cnt + count_calls (upload_accepted E) (tr1 @ [?rq]) s2"
        by auto
      have "upload_rejected E tr1 ?rq" "\<not> upload_accepted E tr1 ?rq"
        using Inl by (simp_all add: upload_rejected_def upload_accepted_def)
      then show ?thesis
        by (intro exI [of _ "s1 @ ?rq # s2"]) (use s1 s2 Some nr in \<open>simp add: count_calls_append\<close>)
    next
      case (Inr v)
      with Cons.prems g Some
      have "gitee_upload_loop E b tk rid (cnt\<lparr>successCount := successCount cnt + 1\<rparr>) (tr1 @ [?rq]) files = (cnt', tr')"
        by (simp add: Let_def)
      from Cons.IH [OF this] obtain s2 where
        s2: "tr' = (tr1 @ [?rq]) @ s2"
            "skipCount cnt' = skipCount cnt + count_calls (read_failed E) (tr1 @ [?rq]) s2"
            "failCount cnt' = failCount cnt + count_calls (upload_rejected E) (tr1 @ [?rq]) s2"
            "successCount cnt' = successCount cnt + 1 + count_calls (upload_accepted E) (tr1 @ [?rq]) s2"
        by auto
      have "\<not> upload_rejected E tr1 ?rq" "upload_accepted E tr1 ?rq"
        using Inr by (simp_all add: upload_rejected_def upload_accepted_def)
      then show ?thesis
        by (intro exI [of _ "s1 @ ?rq # s2"]) (use s1 s2 Some nr in \<open>simp add: count_calls_append\<close>)
    qed
  qed
qed

lemma gitee_step4_counts:
  assumes "gitee_step4 E b opts tr = (Inr u, tr')" and "assetFiles opts \<noteq> []"
  shows "\<exists>suf s k f. tr' = tr @ suf @ [Console_summary s k f]
           \<and> s + k + f = length (assetFiles opts)
           \<and> s = count_calls (upload_accepted E) tr suf
           \<and> k = count_calls (read_failed E) tr suf
           \<and> f = count_calls (upload_rejected E) tr suf"
proof -
  let ?rq = "Axios_get_release_by_tag b (tag opts) (token opts)"
  from assms obtain v where v: "respond E tr ?rq = Inr v"
    by (cases "respond E tr ?rq") (auto simp: gitee_step4_def Let_def)
  with assms obtain rid where rid: "response_release_id v = Some rid"
    by (cases "response_release_id v") (auto simp: gitee_step4_def Let_def)
  obtain cnt tr2 where l: "gitee_upload_loop E b (token opts) rid
      \<lparr>successCount = 0, skipCount = 0, failCount = 0\<rparr> (tr @ [?rq]) (assetFiles opts) = (cnt, tr2)"
    by (cases "gitee_upload_loop E b (token opts) rid
      \<lparr>successCount = 0, skipCount = 0, failCount = 0\<rparr> (tr @ [?rq]) (assetFiles opts)")
  from gitee_upload_loop_suffix [OF l]
  have total: "successCount cnt + skipCount cnt + failCount cnt = length (assetFiles opts)"
    by auto
  from gitee_upload_loop_counts [OF l] obtain s2 where
    s2: "tr2 = (tr @ [?rq]) @ s2"
        "skipCount cnt = count_calls (read_failed E) (tr @ [?rq]) s2"
        "failCount cnt = count_calls (upload_rejected E) (tr @ [?rq]) s2"
        "successCount cnt = count_calls (upload_accepted E) (tr @ [?rq]) s2"
    by auto
  from assms v rid l
  have t: "tr' = tr2 @ [Console_summary (successCount cnt) (skipCount cnt) (failCount cnt)]"
    by (auto simp: gitee_step4_def Let_def)
  show ?thesis
    by (intro exI [of _ "?rq # s2"] exI [of _ "successCount cnt"] exI [of _ "skipCount cnt"]
          exI [of _ "failCount cnt"])
       (use t s2 total in \<open>simp add: upload_rejected_def upload_accepted_def\<close>)
qed

text \<open>
  Claim C5. The upload loop of the Gitee adapter, started with the three counters at 0,
  ends with \<open>successCount + skipCount + failCount\<close> equal to the number of assets, and
  each counter counts its own outcome in the trace the loop adds: \<open>skipCount\<close> the reads
  of a file that failed, \<open>failCount\<close> the upload calls that were rejected, \<open>successCount\<close>
  the upload calls that were accepted. Every run of the adapter that returns with a
  non-empty asset list ends with the summary line, whose three numbers are those three
  counts over the run and add up to the number of assets.
\<close>

theorem gitee_counters_total:
  "(gitee_upload_loop E b tk rid \<lparr>successCount = 0, skipCount = 0, failCount = 0\<rparr> tr files = (cnt, tr1)
      \<longrightarrow> successCount cnt + skipCount cnt + failCount cnt = length files
          \<and> length (filter is_upload tr1) =
              length (filter is_upload tr) + successCount cnt + failCount cnt
          \<and> (\<exists>suf. tr1 = tr @ suf
                \<and> skipCount cnt = count_calls (read_failed E) tr suf
                \<and> failCount cnt = count_calls (upload_rejected E) tr suf
                \<and> successCount cnt = count_calls (upload_accepted E) tr suf))
   \<and> (publishGiteeRelease E opts tr = (Inr u, tr') \<and> assetFiles opts \<noteq> []
      \<longrightarrow> (\<exists>suf s k f. tr' = tr @ suf @ [Console_summary s k f]
              \<and> s + k + f = length (assetFiles opts)
              \<and> s = count_calls (upload_accepted E) tr suf
              \<and> k = count_calls (read_failed E) tr suf
              \<and> f = count_calls (upload_rejected E) tr suf))"
proof (rule conjI; rule impI)
  assume l: "gitee_upload_loop E b tk rid \<lparr>successCount = 0, skipCount = 0, failCount = 0\<rparr> tr files = (cnt, tr1)"
  from gitee_upload_loop_suffix [OF l]
  have a: "successCount cnt + skipCount cnt + failCount cnt = length files
          \<and> length (filter is_upload tr1) =
              length (filter is_upload tr) + successCount cnt + failCount cnt"
    by auto
  from gitee_upload_loop_counts [OF l]
  have "\<exists>suf. tr1 = tr @ suf
                \<and> skipCount cnt = count_calls (read_failed E) tr suf
                \<and> failCount cnt = count_calls (upload_rejected E) tr suf
                \<and> successCount cnt = count_calls (upload_accepted E) tr suf"
    by simp
  with a show "successCount cnt + skipCount cnt + failCount cnt = length files
          \<and> length (filter is_upload tr1) =
              length (filter is_upload tr) + successCount cnt + failCount cnt
          \<and> (\<exists>suf. tr1 = tr @ suf
                \<and> skipCount cnt = count_calls (read_failed E) tr suf
                \<and> failCount cnt = count_calls (upload_rejected E) tr suf
                \<and> successCount cnt = count_calls (upload_accepted E) tr suf)"
    by simp
next
  assume a: "publishGiteeRelease E opts tr = (Inr u, tr') \<and> assetFiles opts \<noteq> []"
  let ?b = "baseUrl_of opts"
  obtain r1 tr1 where s1: "gitee_step1 E ?b opts (tr @ [Enter_publishGiteeRelease]) = (r1, tr1)"
    by (cases "gitee_step1 E ?b opts (tr @ [Enter_publishGiteeRelease])")
  from gitee_step1_suffix [OF s1] obtain p1 where
    p1: "tr1 = (tr @ [Enter_publishGiteeRelease]) @ p1" "\<forall>ev\<in>set p1. \<not> is_asset_event ev"
    by blast
  let ?rq = "Axios_post_releases ?b (token opts) (tag opts) (releaseName opts)
               (body opts) (if prerelease opts then ''true'' else ''false'') (targetCommitish opts)"
  from p1 have "\<exists>pre. tr1 @ [?rq] = tr @ pre \<and> (\<forall>ev\<in>set pre. \<not> is_asset_event ev)"
    by (intro exI [of _ "Enter_publishGiteeRelease # p1 @ [?rq]"]) simp
  then obtain pre where pre: "tr1 @ [?rq] = tr @ pre" "\<forall>ev\<in>set pre. \<not> is_asset_event ev"
    by blast
  from a s1 have "gitee_step4 E ?b opts (tr1 @ [?rq]) = (Inr u, tr')"
    by (auto simp: publishGiteeRelease_def Let_def split: sum.splits)
  then have "gitee_step4 E ?b opts (tr @ pre) = (Inr u, tr')"
    by (simp only: pre(1))
  from gitee_step4_counts [OF this] a obtain suf s k f where
    c: "tr' = (tr @ pre) @ suf @ [Console_summary s k f]"
       "s + k + f = length (assetFiles opts)"
       "s = count_calls (upload_accepted E) (tr @ pre) suf"
       "k = count_calls (read_failed E) (tr @ pre) suf"
       "f = count_calls (upload_rejected E) (tr @ pre) suf"
    by blast
  have z: "count_calls (upload_accepted E) tr pre = 0" "count_calls (read_failed E) tr pre = 0"
    "count_calls (upload_rejected E) tr pre = 0"
    using pre(2)
    by (auto intro!: count_calls_none dest: upload_accepted_asset read_failed_asset
        upload_rejected_asset)
  have "tr' = tr @ (pre @ suf) @ [Console_summary s k f]" using c(1) by simp
  moreover have "s = count_calls (upload_accepted E) tr (pre @ suf)"
    "k = count_calls (read_failed E) tr (pre @ suf)"
    "f = count_calls (upload_rejected E) tr (pre @ suf)"
    using c z by (simp_all add: count_calls_append)
  ultimately show "\<exists>suf s k f. tr' = tr @ suf @ [Console_summary s k f]
              \<and> s + k + f = length (assetFiles opts)
              \<and> s = count_calls (upload_accepted E) tr suf
              \<and> k = count_calls (read_failed E) tr suf
              \<and> f = count_calls (upload_rejected E) tr suf"
    using c(2) by blast
qed

theorem gitee_counters_total_witness:
  "gitee_upload_loop (scenario_env no_inputs net_upload_b_fails) ''base'' ''gtk'' 7
      \<lparr>successCount = 0, skipCount = 0, failCount = 0\<rparr> []
      [''/w/a.bin'', ''/w/locked.bin'', ''/w/b.bin'', ''/w/c.bin''] =
     (\<lparr>successCount = 2, skipCount = 1, failCount = 1\<rparr>,
      [Fs_stat ''/w/a.bin'', Fs_readFile ''/w/a.bin'',
       Axios_post_attach_files ''base'' 7 ''gtk'' ''a.bin'' 3 ''abc'',
       Fs_stat ''/w/locked.bin'',
       Fs_stat ''/w/b.bin'', Fs_readFile ''/w/b.bin'',
       Axios_post_attach_files ''base'' 7 ''gtk'' ''b.bin'' 3 ''abc'',
       Fs_stat ''/w/c.bin'', Fs_readFile ''/w/c.bin'',
       Axios_post_attach_files ''base'' 7 ''gtk'' ''c.bin'' 3 ''abc''])
   \<and> assetFiles (gitee_scenario [''/w/a.bin'', ''/w/locked.bin'', ''/w/b.bin'', ''/w/c.bin'']) \<noteq> []
   \<and> fst (publishGiteeRelease (scenario_env no_inputs net_upload_b_fails)
       (gitee_scenario [''/w/a.bin'', ''/w/locked.bin'', ''/w/b.bin'', ''/w/c.bin'']) []) = Inr ()
   \<and> last (snd (publishGiteeRelease (scenario_env no_inputs net_upload_b_fails)
       (gitee_scenario [''/w/a.bin'', ''/w/locked.bin'', ''/w/b.bin'', ''/w/c.bin'']) [])) =
       Console_summary 2 1 1
   \<and> (2::nat) + 1 + 1 =
       length (assetFiles (gitee_scenario [''/w/a.bin'', ''/w/locked.bin'', ''/w/b.bin'', ''/w/c.bin'']))
   \<and> count_calls (read_failed (scenario_env no_inputs net_upload_b_fails)) []
        (snd (gitee_upload_loop (scenario_env no_inputs net_upload_b_fails) ''base'' ''gtk'' 7
           \<lparr>successCount = 0, skipCount = 0, failCount = 0\<rparr> []
           [''/w/a.bin'', ''/w/locked.bin'', ''/w/b.bin'', ''/w/c.bin''])) = 1
   \<and> count_calls (upload_rejected (scenario_env no_inputs net_upload_b_fails)) []
        (snd (gitee_upload_loop (scenario_env no_inputs net_upload_b_fails) ''base'' ''gtk'' 7
           \<lparr>successCount = 0, skipCount = 0, failCount = 0\<rparr> []
           [''/w/a.bin'', ''/w/locked.bin'', ''/w/b.bin'', ''/w/c.bin''])) = 1
   \<and> count_calls (upload_accepted (scenario_env no_inputs net_upload_b_fails)) []
        (snd (gitee_upload_loop (scenario_env no_inputs net_upload_b_fails) ''base'' ''gtk'' 7
           \<lparr>successCount = 0, skipCount = 0, failCount = 0\<rparr> []
           [''/w/a.bin'', ''/w/locked.bin'', ''/w/b.bin'', ''/w/c.bin''])) = 2"
proof -
  have loop: "gitee_upload_loop (scenario_env no_inputs net_upload_b_fails) ''base'' ''gtk'' 7
      \<lparr>successCount = 0, skipCount = 0, failCount = 0\<rparr> []
      [''/w/a.bin'', ''/w/locked.bin'', ''/w/b.bin'', ''/w/c.bin''] =
     (\<lparr>successCount = 2, skipCount = 1, failCount = 1\<rparr>,
      [Fs_stat ''/w/a.bin'', Fs_readFile ''/w/a.bin'',
       Axios_post_attach_files ''base'' 7 ''gtk'' ''a.bin'' 3 ''abc'',
       Fs_stat ''/w/locked.bin'',
       Fs_stat ''/w/b.bin'', Fs_readFile ''/w/b.bin'',
       Axios_post_attach_files ''base'' 7 ''gtk'' ''b.bin'' 3 ''abc'',
       Fs_stat ''/w/c.bin'', Fs_readFile ''/w/c.bin'',
       Axios_post_attach_files ''base'' 7 ''gtk'' ''c.bin'' 3 ''abc''])"
    by (simp add: scenario_defs getFileInfo_def Let_def)
  have files: "assetFiles (gitee_scenario [''/w/a.bin'', ''/w/locked.bin'', ''/w/b.bin'', ''/w/c.bin'']) \<noteq> []"
    by (simp add: gitee_scenario_def)
  from gitee_counters_total [where E = "scenario_env no_inputs net_upload_b_fails"
      and opts = "gitee_scenario [''/w/a.bin'', ''/w/locked.bin'', ''/w/b.bin'', ''/w/c.bin'']"
      and b = "''base''" and tk = "''gtk''" and rid = 7
      and files = "[''/w/a.bin'', ''/w/locked.bin'', ''/w/b.bin'', ''/w/c.bin'']"
      and tr = "[]" and u = "()"]
    loop files scenario_partial_uploads_run
  have sums: "fst (publishGiteeRelease (scenario_env no_inputs net_upload_b_fails)
       (gitee_scenario [''/w/a.bin'', ''/w/locked.bin'', ''/w/b.bin'', ''/w/c.bin'']) []) = Inr ()
   \<and> last (snd (publishGiteeRelease (scenario_env no_inputs net_upload_b_fails)
       (gitee_scenario [''/w/a.bin'', ''/w/locked.bin'', ''/w/b.bin'', ''/w/c.bin'']) [])) =
       Console_summary 2 1 1
   \<and> (2::nat) + 1 + 1 =
       length (assetFiles (gitee_scenario [''/w/a.bin'', ''/w/locked.bin'', ''/w/b.bin'', ''/w/c.bin'']))"
    by (simp add: gitee_scenario_def)
  have counts: "count_calls (read_failed (scenario_env no_inputs net_upload_b_fails)) []
        (snd (gitee_upload_loop (scenario_env no_inputs net_upload_b_fails) ''base'' ''gtk'' 7
           \<lparr>successCount = 0, skipCount = 0, failCount = 0\<rparr> []
           [''/w/a.bin'', ''/w/locked.bin'', ''/w/b.bin'', ''/w/c.bin''])) = 1
   \<and> count_calls (upload_rejected (scenario_env no_inputs net_upload_b_fails)) []
        (snd (gitee_upload_loop (scenario_env no_inputs net_upload_b_fails) ''base'' ''gtk'' 7
           \<lparr>successCount = 0, skipCount = 0, failCount = 0\<rparr> []
           [''/w/a.bin'', ''/w/locked.bin'', ''/w/b.bin'', ''/w/c.bin''])) = 1
   \<and> count_calls (upload_accepted (scenario_env no_inputs net_upload_b_fails)) []
        (snd (gitee_upload_loop (scenario_env no_inputs net_upload_b_fails) ''base'' ''gtk'' 7
           \<lparr>successCount = 0, skipCount = 0, failCount = 0\<rparr> []
           [''/w/a.bin'', ''/w/locked.bin'', ''/w/b.bin'', ''/w/c.bin''])) = 2"
    unfolding loop by (simp add: scenario_env_def ok_release_def upload_rejected_def upload_accepted_def)
  from loop files sums counts show ?thesis by simp
qed



section \<open>The simple adapter\<close>

lemma github_upload_loop_append:
  "github_upload_loop E ow rp rid tr (xs @ ys) =
     (case github_upload_loop E ow rp rid tr xs of
        (Inl e, t) \<Rightarrow> (Inl e, t)
      | (Inr u, t) \<Rightarrow> github_upload_loop E ow rp rid t ys)"
proof (induction xs arbitrary: tr)
  case Nil
  show ?case by simp
next
  case (Cons x xs)
  show ?case
    by (cases "getFileInfo E tr x") (auto simp: Let_def Cons.IH split: option.splits sum.splits)
qed

lemma github_upload_loop_suffix:
  "github_upload_loop E ow rp rid tr files = (r, tr') \<Longrightarrow>
     \<exists>suf. tr' = tr @ suf \<and> (\<forall>ev\<in>set suf. is_asset_event ev)
       \<and> (\<forall>ev\<in>set suf. octokit_target ev = None \<or> octokit_target ev = Some (ow, rp))
       \<and> (case r of Inr u \<Rightarrow> attempted suf = files | Inl e \<Rightarrow> True)"
proof (induction files arbitrary: tr)
  case Nil
  then show ?case by auto
next
  case (Cons f files)
  obtain g tr1 where g: "getFileInfo E tr f = (g, tr1)" by (cases "getFileInfo E tr f")
  from getFileInfo_suffix [OF g] obtain s1 where
    s1: "tr1 = tr @ s1" "attempted s1 = [f]" "\<forall>ev\<in>set s1. is_asset_event ev \<and> \<not> is_upload ev"
    by blast
  have t1: "\<forall>ev\<in>set s1. octokit_target ev = None"
  proof
    fix ev assume "ev \<in> set s1"
    with s1(3) have "is_asset_event ev \<and> \<not> is_upload ev" by blast
    then show "octokit_target ev = None" by (cases ev) auto
  qed
  show ?case
  proof (cases g)
    case None
    with Cons.prems g have "github_upload_loop E ow rp rid tr1 files = (r, tr')" by simp
    from Cons.IH [OF this] obtain s2 where
      s2: "tr' = tr1 @ s2" "\<forall>ev\<in>set s2. is_asset_event ev"
          "\<forall>ev\<in>set s2. octokit_target ev = None \<or> octokit_target ev = Some (ow, rp)"
          "case r of Inr u \<Rightarrow> attempted s2 = files | Inl e \<Rightarrow> True"
      by blast
    show ?thesis
      by (rule exI [of _ "s1 @ s2"]) (use s1 s2 t1 in \<open>auto simp: attempted_append split: sum.splits\<close>)
  next
    case (Some fi)
    let ?rq = "Octokit_uploadReleaseAsset ow rp rid (file_name fi) (file_content fi)"
    show ?thesis
    proof (cases "respond E tr1 ?rq")
      case (Inl e)
      with Cons.prems g Some have "r = Inl e" "tr' = tr1 @ [?rq]" by (auto simp: Let_def)
      then show ?thesis
        by (intro exI [of _ "s1 @ [?rq]"]) (use s1 t1 in auto)
    next
      case (Inr v)
      with Cons.prems g Some have "github_upload_loop E ow rp rid (tr1 @ [?rq]) files = (r, tr')"
        by (auto simp: Let_def)
      from Cons.IH [OF this] obtain s2 where
        s2: "tr' = (tr1 @ [?rq]) @ s2" "\<forall>ev\<in>set s2. is_asset_event ev"
            "\<forall>ev\<in>set s2. octokit_target ev = None \<or> octokit_target ev = Some (ow, rp)"
            "case r of Inr u \<Rightarrow> attempted s2 = files | Inl e \<Rightarrow> True"
        by blast
      show ?thesis
        by (rule exI [of _ "s1 @ ?rq # s2"]) (use s1 s2 t1 in \<open>auto simp: attempted_append split: sum.splits\<close>)
    qed
  qed
qed

lemma github_try_trace:
  assumes "github_try E opts tr = (r, tr')"
  shows "\<exists>suf. tr' = tr @ suf \<and> (\<forall>ev\<in>set suf. \<not> is_adapter_entry ev)
           \<and> (\<forall>ev\<in>set suf. case octokit_target ev of None \<Rightarrow> True | Some t \<Rightarrow> context_repo E = Inr t)"
proof (cases "getOctokit E (token opts)")
  case (Inl e)
  with assms show ?thesis by (simp add: github_try_def)
next
  case (Inr octokit)
  note oc = this
  show ?thesis
  proof (cases "context_repo E")
    case (Inl e)
    with assms oc show ?thesis by (simp add: github_try_def)
  next
    case (Inr p)
    obtain ow rp where p: "p = (ow, rp)" by (cases p)
    let ?rq = "Octokit_createRelease ow rp (tag opts) (releaseName opts) (body opts)
                 (draft opts) (prerelease opts)"
    show ?thesis
    proof (cases "respond E tr ?rq")
      case (Inl e)
      with assms oc Inr p have "tr' = tr @ [?rq]" by (simp add: github_try_def Let_def)
      with Inr p show ?thesis by simp
    next
      case (Inr resp)
      note rs = this
      show ?thesis
      proof (cases "data resp")
        case None
        with assms oc \<open>context_repo E = Inr p\<close> p rs have "tr' = tr @ [?rq]"
          by (simp add: github_try_def Let_def)
        with \<open>context_repo E = Inr p\<close> p show ?thesis by simp
      next
        case (Some d)
        show ?thesis
        proof (cases "assetFiles opts = []")
          case True
          with assms oc \<open>context_repo E = Inr p\<close> p rs Some have "tr' = tr @ [?rq]"
            by (simp add: github_try_def Let_def)
          with \<open>context_repo E = Inr p\<close> p show ?thesis by simp
        next
          case False
          obtain r2 tr2 where l: "github_upload_loop E ow rp (data_id d) (tr @ [?rq]) (assetFiles opts) = (r2, tr2)"
            by (cases "github_upload_loop E ow rp (data_id d) (tr @ [?rq]) (assetFiles opts)")
          with assms oc \<open>context_repo E = Inr p\<close> p rs Some False have t: "tr' = tr2"
            by (auto simp: github_try_def Let_def split: sum.splits)
          from github_upload_loop_suffix [OF l] obtain s2 where
            s2: "tr2 = (tr @ [?rq]) @ s2" "\<forall>ev\<in>set s2. is_asset_event ev"
                "\<forall>ev\<in>set s2. octokit_target ev = None \<or> octokit_target ev = Some (ow, rp)"
            by blast
          have "\<forall>ev\<in>set s2. \<not> is_adapter_entry ev"
          proof
            fix ev assume "ev \<in> set s2"
            with s2(2) have "is_asset_event ev" by blast
            then show "\<not> is_adapter_entry ev" by (cases ev) auto
          qed
          with t s2 \<open>context_repo E = Inr p\<close> p show ?thesis
            by (intro exI [of _ "?rq # s2"]) (auto split: option.splits)
        qed
      qed
    qed
  qed
qed

lemma publishGitHubRelease_trace:
  assumes "publishGitHubRelease E opts tr = (r, tr')"
  shows "\<exists>suf. tr' = tr @ Enter_publishGitHubRelease # suf \<and> (\<forall>ev\<in>set suf. \<not> is_adapter_entry ev)
           \<and> (\<forall>ev\<in>set suf. case octokit_target ev of None \<Rightarrow> True | Some t \<Rightarrow> context_repo E = Inr t)"
proof -
  obtain r0 t0 where g: "github_try E opts (tr @ [Enter_publishGitHubRelease]) = (r0, t0)"
    by (cases "github_try E opts (tr @ [Enter_publishGitHubRelease])")
  from github_try_trace [OF g] obtain suf where
    s: "t0 = (tr @ [Enter_publishGitHubRelease]) @ suf" "\<forall>ev\<in>set suf. \<not> is_adapter_entry ev"
       "\<forall>ev\<in>set suf. case octokit_target ev of None \<Rightarrow> True | Some t \<Rightarrow> context_repo E = Inr t"
    by blast
  show ?thesis
  proof (cases r0)
    case (Inl e)
    with assms g have "tr' = t0 @ [Core_setFailed (''GitHub Release publication failed: '' @ message e)]"
      by (simp add: publishGitHubRelease_def)
    with s show ?thesis
      by (intro exI [of _ "suf @ [Core_setFailed (''GitHub Release publication failed: '' @ message e)]"]) auto
  next
    case (Inr d)
    with assms g have "tr' = t0" by (simp add: publishGitHubRelease_def)
    with s show ?thesis by (intro exI [of _ suf]) auto
  qed
qed

lemmas github_defs = publishGitHubRelease_def github_try_def getFileInfo_def Let_def

text \<open>
  Claim C1, as stated, fails: with three assets and the upload of the second one
  rejected, the GitHub adapter throws that error, marks the action as failed, and the
  third asset is never attempted.
\<close>

theorem github_upload_failure_stops_loop:
  "publishGitHubRelease (scenario_env no_inputs net_upload_b_fails)
     (github_scenario [''/w/a.bin'', ''/w/b.bin'', ''/w/c.bin'']) [] =
   (Inl (JsError ''socket hang up'' None),
    [Enter_publishGitHubRelease,
     Octokit_createRelease ''octo'' ''demo'' ''v1.0.0'' ''Release 1'' ''notes'' False False,
     Fs_stat ''/w/a.bin'', Fs_readFile ''/w/a.bin'',
     Octokit_uploadReleaseAsset ''octo'' ''demo'' (Some 7) ''a.bin'' ''abc'',
     Fs_stat ''/w/b.bin'', Fs_readFile ''/w/b.bin'',
     Octokit_uploadReleaseAsset ''octo'' ''demo'' (Some 7) ''b.bin'' ''abc'',
     Core_setFailed ''GitHub Release publication failed: socket hang up''])
   \<and> attempted (snd (publishGitHubRelease (scenario_env no_inputs net_upload_b_fails)
         (github_scenario [''/w/a.bin'', ''/w/b.bin'', ''/w/c.bin'']) [])) =
       [''/w/a.bin'', ''/w/b.bin'']"
  by (simp add: scenario_defs github_defs)

text \<open>
  Claim C1, amended. In the GitHub adapter a rejected upload call ends the loop: when
  the release was created, the assets before \<open>filePath\<close> went through, the file of
  \<open>filePath\<close> was read and its upload call fails with \<open>e\<close>, then the adapter throws \<open>e\<close>,
  its last two events are that upload call and \<open>core.setFailed\<close> with the message of
  \<open>e\<close>, and the assets attempted are exactly those up to \<open>filePath\<close>: none of the
  later ones.
\<close>

theorem github_upload_failure_is_fatal:
  assumes octokit: "getOctokit E (token opts) = Inr ok"
    and ctx: "context_repo E = Inr (ow, rp)"
    and created: "respond E (tr @ [Enter_publishGitHubRelease])
        (Octokit_createRelease ow rp (tag opts) (releaseName opts) (body opts)
           (draft opts) (prerelease opts)) = Inr (Response (Some d))"
    and files: "assetFiles opts = before @ filePath # later"
    and earlier: "github_upload_loop E ow rp (data_id d)
        (tr @ [Enter_publishGitHubRelease,
               Octokit_createRelease ow rp (tag opts) (releaseName opts) (body opts)
                 (draft opts) (prerelease opts)]) before = (Inr u, tr1)"
    and info: "getFileInfo E tr1 filePath = (Some fileInfo, tr2)"
    and rejected: "respond E tr2
        (Octokit_uploadReleaseAsset ow rp (data_id d) (file_name fileInfo) (file_content fileInfo)) = Inl e"
  shows "publishGitHubRelease E opts tr =
           (Inl e,
            tr2 @ [Octokit_uploadReleaseAsset ow rp (data_id d) (file_name fileInfo) (file_content fileInfo),
                   Core_setFailed (''GitHub Release publication failed: '' @ message e)])
         \<and> attempted (snd (publishGitHubRelease E opts tr)) = attempted tr @ before @ [filePath]"
proof -
  let ?mk = "Octokit_createRelease ow rp (tag opts) (releaseName opts) (body opts)
               (draft opts) (prerelease opts)"
  let ?up = "Octokit_uploadReleaseAsset ow rp (data_id d) (file_name fileInfo) (file_content fileInfo)"
  let ?tr0 = "tr @ [Enter_publishGitHubRelease]"
  have one: "github_upload_loop E ow rp (data_id d) tr1 (filePath # later) = (Inl e, tr2 @ [?up])"
    using info rejected by (simp add: Let_def)
  have loop: "github_upload_loop E ow rp (data_id d) (?tr0 @ [?mk]) (assetFiles opts) = (Inl e, tr2 @ [?up])"
    using earlier one by (simp add: files github_upload_loop_append)
  have "github_try E opts ?tr0 = (Inl e, tr2 @ [?up])"
    using octokit ctx created loop files by (simp add: github_try_def Let_def)
  then have run: "publishGitHubRelease E opts tr =
      (Inl e, tr2 @ [?up, Core_setFailed (''GitHub Release publication failed: '' @ message e)])"
    by (simp add: publishGitHubRelease_def)
  from github_upload_loop_suffix [OF earlier] obtain s1 where
    s1: "tr1 = (tr @ [Enter_publishGitHubRelease, ?mk]) @ s1" "attempted s1 = before"
    by auto
  from getFileInfo_suffix [OF info] have "attempted tr2 = attempted tr1 @ [filePath]"
    by (auto simp: attempted_append)
  with s1 have "attempted tr2 = attempted tr @ before @ [filePath]"
    by (simp add: attempted_append)
  with run show ?thesis by (simp add: attempted_append)
qed

theorem github_upload_failure_is_fatal_witness:
  "assetFiles (github_scenario [''/w/a.bin'', ''/w/b.bin'', ''/w/c.bin'']) =
     [''/w/a.bin''] @ ''/w/b.bin'' # [''/w/c.bin'']
   \<and> respond (scenario_env no_inputs net_upload_b_fails)
        [Enter_publishGitHubRelease,
         Octokit_createRelease ''octo'' ''demo'' ''v1.0.0'' ''Release 1'' ''notes'' False False,
         Fs_stat ''/w/a.bin'', Fs_readFile ''/w/a.bin'',
         Octokit_uploadReleaseAsset ''octo'' ''demo'' (Some 7) ''a.bin'' ''abc'',
         Fs_stat ''/w/b.bin'', Fs_readFile ''/w/b.bin'']
        (Octokit_uploadReleaseAsset ''octo'' ''demo'' (Some 7) ''b.bin'' ''abc'') =
       Inl (JsError ''socket hang up'' None)
   \<and> fst (publishGitHubRelease (scenario_env no_inputs net_upload_b_fails)
         (github_scenario [''/w/a.bin'', ''/w/b.bin'', ''/w/c.bin'']) []) =
       Inl (JsError ''socket hang up'' None)
   \<and> attempted (snd (publishGitHubRelease (scenario_env no_inputs net_upload_b_fails)
         (github_scenario [''/w/a.bin'', ''/w/b.bin'', ''/w/c.bin'']) [])) =
       [''/w/a.bin'', ''/w/b.bin'']"
proof -
  let ?E = "scenario_env no_inputs net_upload_b_fails"
  let ?opts = "github_scenario [''/w/a.bin'', ''/w/b.bin'', ''/w/c.bin'']"
  let ?d = "\<lparr>data_id = Some 7, data_html_url = ''https://example.org/releases/7''\<rparr>"
  let ?mk = "Octokit_createRelease ''octo'' ''demo'' (tag ?opts) (releaseName ?opts) (body ?opts)
               (draft ?opts) (prerelease ?opts)"
  let ?tr1 = "[Enter_publishGitHubRelease,
         Octokit_createRelease ''octo'' ''demo'' ''v1.0.0'' ''Release 1'' ''notes'' False False,
         Fs_stat ''/w/a.bin'', Fs_readFile ''/w/a.bin'',
         Octokit_uploadReleaseAsset ''octo'' ''demo'' (Some 7) ''a.bin'' ''abc'']"
  let ?fi = "\<lparr>file_name = ''b.bin'', file_size = 3, file_content = ''abc''\<rparr>"
  have octokit: "getOctokit ?E (token ?opts) = Inr ()"
    by (simp add: scenario_env_def)
  have ctx: "context_repo ?E = Inr (''octo'', ''demo'')"
    by (simp add: scenario_env_def)
  have created: "respond ?E ([] @ [Enter_publishGitHubRelease]) ?mk = Inr (Response (Some ?d))"
    by (simp add: scenario_env_def ok_release_def)
  have files: "assetFiles ?opts = [''/w/a.bin''] @ ''/w/b.bin'' # [''/w/c.bin'']"
    by (simp add: github_scenario_def)
  have earlier: "github_upload_loop ?E ''octo'' ''demo'' (data_id ?d)
      ([] @ [Enter_publishGitHubRelease, ?mk]) [''/w/a.bin''] = (Inr (), ?tr1)"
    by (simp add: scenario_defs getFileInfo_def Let_def)
  have info: "getFileInfo ?E ?tr1 ''/w/b.bin'' =
      (Some ?fi, ?tr1 @ [Fs_stat ''/w/b.bin'', Fs_readFile ''/w/b.bin''])"
    by (simp add: scenario_defs getFileInfo_def Let_def)
  have rejected: "respond ?E (?tr1 @ [Fs_stat ''/w/b.bin'', Fs_readFile ''/w/b.bin''])
      (Octokit_uploadReleaseAsset ''octo'' ''demo'' (data_id ?d) (file_name ?fi) (file_content ?fi)) =
      Inl (JsError ''socket hang up'' None)"
    by (simp add: scenario_env_def)
  from github_upload_failure_is_fatal [OF octokit ctx created files earlier info rejected]
    files rejected
  show ?thesis by simp
qed

lemma github_try_cong:
  fixes opts :: "'a github_options_scheme" and opts' :: "'b github_options_scheme"
  assumes "token opts = token opts'" "tag opts = tag opts'" "releaseName opts = releaseName opts'"
    "body opts = body opts'" "draft opts = draft opts'" "prerelease opts = prerelease opts'"
    "assetFiles opts = assetFiles opts'"
  shows "github_try E opts tr = github_try E opts' tr"
  unfolding github_try_def assms ..

text \<open>
  Claim C10. Every call that a run of the GitHub adapter addresses to the Octokit client
  (the release creation and each asset upload) carries the owner and the repository of
  \<open>github.context.repo\<close>; and the run is the same for any two option objects that agree
  on \<open>token\<close>, \<open>tag\<close>, \<open>releaseName\<close>, \<open>body\<close>, \<open>draft\<close>, \<open>prerelease\<close> and \<open>assetFiles\<close>,
  whatever further properties (an owner, a repository) either of them has.
\<close>

theorem github_repository_from_context:
  fixes opts :: "'a github_options_scheme" and opts' :: "'b github_options_scheme"
  shows "(\<forall>ev\<in>set (drop (length tr) (snd (publishGitHubRelease E opts tr))).
            case octokit_target ev of None \<Rightarrow> True | Some t \<Rightarrow> context_repo E = Inr t)
         \<and> (token opts = token opts' \<and> tag opts = tag opts' \<and> releaseName opts = releaseName opts'
            \<and> body opts = body opts' \<and> draft opts = draft opts' \<and> prerelease opts = prerelease opts'
            \<and> assetFiles opts = assetFiles opts'
            \<longrightarrow> publishGitHubRelease E opts tr = publishGitHubRelease E opts' tr)"
proof (intro conjI impI)
  obtain r tr' where run: "publishGitHubRelease E opts tr = (r, tr')"
    by (cases "publishGitHubRelease E opts tr")
  from publishGitHubRelease_trace [OF run] obtain suf where
    s: "tr' = tr @ Enter_publishGitHubRelease # suf"
       "\<forall>ev\<in>set suf. case octokit_target ev of None \<Rightarrow> True | Some t \<Rightarrow> context_repo E = Inr t"
    by blast
  then show "\<forall>ev\<in>set (drop (length tr) (snd (publishGitHubRelease E opts tr))).
            case octokit_target ev of None \<Rightarrow> True | Some t \<Rightarrow> context_repo E = Inr t"
    by (simp add: run)
next
  assume "token opts = token opts' \<and> tag opts = tag opts' \<and> releaseName opts = releaseName opts'
            \<and> body opts = body opts' \<and> draft opts = draft opts' \<and> prerelease opts = prerelease opts'
            \<and> assetFiles opts = assetFiles opts'"
  then have "github_try E opts (tr @ [Enter_publishGitHubRelease]) =
             github_try E opts' (tr @ [Enter_publishGitHubRelease])"
    by (intro github_try_cong) simp_all
  then show "publishGitHubRelease E opts tr = publishGitHubRelease E opts' tr"
    by (simp add: publishGitHubRelease_def)
qed

theorem github_repository_from_context_witness:
  "publishGitHubRelease (scenario_env no_inputs net_ok)
     \<lparr>token = ''ghp'', tag = ''v1.0.0'', releaseName = ''Release 1'', body = ''notes'',
      prerelease = False, assetFiles = [''/w/a.bin''], draft = False,
      \<dots> = (''other-owner'', ''other-repo'')\<rparr> [] =
   (Inr \<lparr>data_id = Some 7, data_html_url = ''https://example.org/releases/7''\<rparr>,
    [Enter_publishGitHubRelease,
     Octokit_createRelease ''octo'' ''demo'' ''v1.0.0'' ''Release 1'' ''notes'' False False,
     Fs_stat ''/w/a.bin'', Fs_readFile ''/w/a.bin'',
     Octokit_uploadReleaseAsset ''octo'' ''demo'' (Some 7) ''a.bin'' ''abc''])
   \<and> context_repo (scenario_env no_inputs net_ok) = Inr (''octo'', ''demo'')
   \<and> publishGitHubRelease (scenario_env no_inputs net_ok)
       \<lparr>token = ''ghp'', tag = ''v1.0.0'', releaseName = ''Release 1'', body = ''notes'',
        prerelease = False, assetFiles = [''/w/a.bin''], draft = False,
        \<dots> = (''other-owner'', ''other-repo'')\<rparr> [] =
     publishGitHubRelease (scenario_env no_inputs net_ok) (github_scenario [''/w/a.bin'']) []"
proof -
  have run: "publishGitHubRelease (scenario_env no_inputs net_ok)
     \<lparr>token = ''ghp'', tag = ''v1.0.0'', releaseName = ''Release 1'', body = ''notes'',
      prerelease = False, assetFiles = [''/w/a.bin''], draft = False,
      \<dots> = (''other-owner'', ''other-repo'')\<rparr> [] =
   (Inr \<lparr>data_id = Some 7, data_html_url = ''https://example.org/releases/7''\<rparr>,
    [Enter_publishGitHubRelease,
     Octokit_createRelease ''octo'' ''demo'' ''v1.0.0'' ''Release 1'' ''notes'' False False,
     Fs_stat ''/w/a.bin'', Fs_readFile ''/w/a.bin'',
     Octokit_uploadReleaseAsset ''octo'' ''demo'' (Some 7) ''a.bin'' ''abc''])"
    by (simp add: scenario_defs github_defs)
  have ctx: "context_repo (scenario_env no_inputs net_ok) = Inr (''octo'', ''demo'')"
    by (simp add: scenario_env_def)
  from github_repository_from_context
    [where E = "scenario_env no_inputs net_ok" and tr = "[]"
       and opts = "\<lparr>token = ''ghp'', tag = ''v1.0.0'', releaseName = ''Release 1'', body = ''notes'',
          prerelease = False, assetFiles = [''/w/a.bin''], draft = False,
          \<dots> = (''other-owner'', ''other-repo'')\<rparr>"
       and opts' = "github_scenario [''/w/a.bin'']"]
  have "publishGitHubRelease (scenario_env no_inputs net_ok)
       \<lparr>token = ''ghp'', tag = ''v1.0.0'', releaseName = ''Release 1'', body = ''notes'',
        prerelease = False, assetFiles = [''/w/a.bin''], draft = False,
        \<dots> = (''other-owner'', ''other-repo'')\<rparr> [] =
     publishGitHubRelease (scenario_env no_inputs net_ok) (github_scenario [''/w/a.bin'']) []"
    by (simp add: github_scenario_def)
  with run ctx show ?thesis by simp
qed

lemmas string_defs = trim_def strip_leading_def lead_len_def ws_encodings_def toLowerCase_def
  ascii_lower_def is_ascii_def

lemmas main_defs = main_def main_try_def main_inputs_def try_bind_def syncPlatforms_of_def
  string_defs platforms_def object_prototype_keys_def
  resolveAssetFiles_def assetPatterns_def inputs_of_def action_inputs_def

section \<open>The orchestrator\<close>

text \<open>
  The validation loop rejects every list with a platform that the lookup does not find
  or whose required inputs are empty, and a rejected list runs no adapter: the whole
  trace of \<open>main\<close> is the one \<open>core.setFailed\<close>.
\<close>

lemma main_validate_rejects:
  assumes "p \<in> set ps"
    and "platforms p = None \<or> (p = ''github'' \<and> githubToken = []) \<or>
         (p = ''gitee'' \<and> (giteeToken = [] \<or> giteeOwner = [] \<or> giteeRepo = []))"
  shows "main_validate githubToken giteeToken giteeOwner giteeRepo ps \<noteq> None"
  using assms by (induction ps) auto

lemma main_rejected_runs_nothing:
  assumes "main_inputs E = Inr (ps, gh, ge)"
    and "main_validate (token gh) (token ge) (owner ge) (repo ge) ps = Some errorMessage"
  shows "main E = [Core_setFailed errorMessage]"
  using assms by (simp add: main_def main_try_def)

lemma main_execute_append:
  "main_execute E gh ge tr (xs @ ys) =
     (case main_execute E gh ge tr xs of
        (Inl e, t) \<Rightarrow> (Inl e, t)
      | (Inr u, t) \<Rightarrow> main_execute E gh ge t ys)"
proof (induction xs arbitrary: tr)
  case Nil
  show ?case by simp
next
  case (Cons x xs)
  show ?case
    by (cases "publishGitHubRelease E gh tr"; cases "publishGiteeRelease E ge tr")
       (auto simp: Cons.IH split: sum.splits)
qed

lemma expected_entries_snoc:
  "expected_entries (xs @ [p]) = expected_entries xs @ expected_entries [p]"
  by (induction xs) auto

lemma main_execute_entries:
  "main_execute E gh ge tr ps = (r, tr') \<Longrightarrow>
     \<exists>k\<le>length ps. \<exists>suf. tr' = tr @ suf \<and> filter is_adapter_entry suf = expected_entries (take k ps)
        \<and> (case r of Inr u \<Rightarrow> k = length ps | Inl e \<Rightarrow> 0 < k)"
proof (induction ps arbitrary: tr)
  case Nil
  then show ?case by auto
next
  case (Cons p ps)
  show ?case
  proof (cases "p = ''github''")
    case True
    obtain r1 t1 where g: "publishGitHubRelease E gh tr = (r1, t1)"
      by (cases "publishGitHubRelease E gh tr")
    from publishGitHubRelease_trace [OF g] obtain s1 where
      s1: "t1 = tr @ Enter_publishGitHubRelease # s1" "\<forall>ev\<in>set s1. \<not> is_adapter_entry ev"
      by blast
    then have f1: "filter is_adapter_entry s1 = []"
      by (simp add: filter_empty_conv)
    show ?thesis
    proof (cases r1)
      case (Inl e)
      with Cons.prems True g have "r = Inl e" "tr' = t1" by auto
      with s1 f1 True show ?thesis
        by (intro exI [of _ 1]) auto
    next
      case (Inr d)
      with Cons.prems True g have "main_execute E gh ge t1 ps = (r, tr')" by auto
      from Cons.IH [OF this] obtain k s2 where
        k: "k \<le> length ps" "tr' = t1 @ s2" "filter is_adapter_entry s2 = expected_entries (take k ps)"
           "case r of Inr u \<Rightarrow> k = length ps | Inl e \<Rightarrow> 0 < k"
        by blast
      have "tr' = tr @ (Enter_publishGitHubRelease # s1) @ s2" using k s1 by simp
      moreover have "filter is_adapter_entry ((Enter_publishGitHubRelease # s1) @ s2) =
          expected_entries (take (Suc k) (p # ps))"
        using f1 k True by simp
      ultimately show ?thesis using k
        by (intro exI [of _ "Suc k"]) (auto split: sum.splits)
    qed
  next
    case False
    note ngh = this
    show ?thesis
    proof (cases "p = ''gitee''")
      case True
      obtain r1 t1 where g: "publishGiteeRelease E ge tr = (r1, t1)"
        by (cases "publishGiteeRelease E ge tr")
      from publishGiteeRelease_trace [OF g] obtain s1 where
        s1: "t1 = tr @ Enter_publishGiteeRelease # s1" "\<forall>ev\<in>set s1. \<not> is_adapter_entry ev"
        by blast
      then have f1: "filter is_adapter_entry s1 = []"
        by (simp add: filter_empty_conv)
      show ?thesis
      proof (cases r1)
        case (Inl e)
        with Cons.prems True g have "r = Inl e" "tr' = t1" by auto
        with s1 f1 True show ?thesis
          by (intro exI [of _ 1]) auto
      next
        case (Inr d)
        with Cons.prems True g have "main_execute E gh ge t1 ps = (r, tr')" by auto
        from Cons.IH [OF this] obtain k s2 where
          k: "k \<le> length ps" "tr' = t1 @ s2" "filter is_adapter_entry s2 = expected_entries (take k ps)"
             "case r of Inr u \<Rightarrow> k = length ps | Inl e \<Rightarrow> 0 < k"
          by blast
        have "tr' = tr @ (Enter_publishGiteeRelease # s1) @ s2" using k s1 by simp
        moreover have "filter is_adapter_entry ((Enter_publishGiteeRelease # s1) @ s2) =
            expected_entries (take (Suc k) (p # ps))"
          using f1 k True by simp
        ultimately show ?thesis using k
          by (intro exI [of _ "Suc k"]) (auto split: sum.splits)
      qed
    next
      case False
      with Cons.prems ngh have "main_execute E gh ge tr ps = (r, tr')" by auto
      from Cons.IH [OF this] obtain k s2 where
        k: "k \<le> length ps" "tr' = tr @ s2" "filter is_adapter_entry s2 = expected_entries (take k ps)"
           "case r of Inr u \<Rightarrow> k = length ps | Inl e \<Rightarrow> 0 < k"
        by blast
      with False ngh show ?thesis
        by (intro exI [of _ "Suc k"]) (auto split: sum.splits)
    qed
  qed
qed

text \<open>
  Claim C7. The execution loop of \<open>main\<close> only appends to the trace, and the adapters it
  enters are those of the first \<open>k\<close> requested platforms, in the order requested: all
  of them when the loop returns, at least one when it throws. When the platforms
  \<open>before\<close> went through and the adapter of the next platform throws \<open>e\<close> leaving the
  trace \<open>tr2\<close>, the loop throws \<open>e\<close> with exactly the trace \<open>tr2\<close>, whatever platforms
  come \<open>later\<close>: no later adapter is entered and nothing is undone, the work of the
  platforms before being a prefix of \<open>tr2\<close>.
\<close>

theorem main_execute_in_order_until_fatal:
  "(main_execute E gh ge tr ps = (r, tr') \<longrightarrow>
      prefix tr tr' \<and>
      (\<exists>k\<le>length ps.
          filter is_adapter_entry tr' = filter is_adapter_entry tr @ expected_entries (take k ps)
          \<and> (case r of Inr done \<Rightarrow> k = length ps | Inl e \<Rightarrow> 0 < k)))
   \<and> (main_execute E gh ge tr before = (Inr u, tr1) \<and>
       (platform = ''github'' \<and> publishGitHubRelease E gh tr1 = (Inl e, tr2) \<or>
        platform = ''gitee'' \<and> publishGiteeRelease E ge tr1 = (Inl e, tr2))
      \<longrightarrow> main_execute E gh ge tr (before @ platform # later) = (Inl e, tr2) \<and> prefix tr1 tr2)"
proof (intro conjI impI)
  assume run: "main_execute E gh ge tr ps = (r, tr')"
  from main_execute_entries [OF run] obtain k suf where
    k: "k \<le> length ps" "tr' = tr @ suf" "filter is_adapter_entry suf = expected_entries (take k ps)"
       "case r of Inr u \<Rightarrow> k = length ps | Inl e \<Rightarrow> 0 < k"
    by blast
  then show "prefix tr tr'" by simp
  from k show "\<exists>k\<le>length ps.
          filter is_adapter_entry tr' = filter is_adapter_entry tr @ expected_entries (take k ps)
          \<and> (case r of Inr done \<Rightarrow> k = length ps | Inl e \<Rightarrow> 0 < k)"
    by (intro exI [of _ k]) simp
next
  assume a: "main_execute E gh ge tr before = (Inr u, tr1) \<and>
       (platform = ''github'' \<and> publishGitHubRelease E gh tr1 = (Inl e, tr2) \<or>
        platform = ''gitee'' \<and> publishGiteeRelease E ge tr1 = (Inl e, tr2))"
  then show "main_execute E gh ge tr (before @ platform # later) = (Inl e, tr2)"
    by (auto simp: main_execute_append)
  from a show "prefix tr1 tr2"
    by (auto dest: publishGitHubRelease_trace publishGiteeRelease_trace)
qed

theorem main_execute_in_order_until_fatal_witness:
  "main_execute (scenario_env no_inputs net_github_create_fails)
      (github_scenario []) (gitee_scenario []) [] [] = (Inr (), [])
   \<and> publishGitHubRelease (scenario_env no_inputs net_github_create_fails) (github_scenario []) [] =
      (Inl (JsError ''Validation Failed'' (Some 422)),
       [Enter_publishGitHubRelease,
        Octokit_createRelease ''octo'' ''demo'' ''v1.0.0'' ''Release 1'' ''notes'' False False,
        Core_setFailed ''GitHub Release publication failed: Validation Failed''])
   \<and> main_execute (scenario_env no_inputs net_github_create_fails)
      (github_scenario []) (gitee_scenario []) [] [''github'', ''gitee''] =
      (Inl (JsError ''Validation Failed'' (Some 422)),
       [Enter_publishGitHubRelease,
        Octokit_createRelease ''octo'' ''demo'' ''v1.0.0'' ''Release 1'' ''notes'' False False,
        Core_setFailed ''GitHub Release publication failed: Validation Failed''])
   \<and> main (scenario_env (action_inputs [(''platforms'', ''github,gitee''), (''tag'', ''v1.0.0''),
        (''release-name'', ''Release 1''), (''release-body'', ''notes''), (''github-token'', ''ghp''),
        (''gitee-token'', ''gtk''), (''gitee-owner'', ''acme''), (''gitee-repo'', ''app'')])
        net_github_create_fails) =
      [Enter_publishGitHubRelease,
       Octokit_createRelease ''octo'' ''demo'' ''v1.0.0'' ''Release 1'' ''notes'' False False,
       Core_setFailed ''GitHub Release publication failed: Validation Failed'',
       Core_setFailed ''Release synchronization failed: Validation Failed'']"
proof -
  let ?E = "scenario_env no_inputs net_github_create_fails"
  have h1: "main_execute ?E (github_scenario []) (gitee_scenario []) [] [] = (Inr (), [])"
    by simp
  have h2: "publishGitHubRelease ?E (github_scenario []) [] =
      (Inl (JsError ''Validation Failed'' (Some 422)),
       [Enter_publishGitHubRelease,
        Octokit_createRelease ''octo'' ''demo'' ''v1.0.0'' ''Release 1'' ''notes'' False False,
        Core_setFailed ''GitHub Release publication failed: Validation Failed''])"
    by (simp add: scenario_defs github_defs)
  have h3: "main (scenario_env (action_inputs [(''platforms'', ''github,gitee''), (''tag'', ''v1.0.0''),
        (''release-name'', ''Release 1''), (''release-body'', ''notes''), (''github-token'', ''ghp''),
        (''gitee-token'', ''gtk''), (''gitee-owner'', ''acme''), (''gitee-repo'', ''app'')])
        net_github_create_fails) =
      [Enter_publishGitHubRelease,
       Octokit_createRelease ''octo'' ''demo'' ''v1.0.0'' ''Release 1'' ''notes'' False False,
       Core_setFailed ''GitHub Release publication failed: Validation Failed'',
       Core_setFailed ''Release synchronization failed: Validation Failed'']"
    by (simp add: main_defs scenario_defs github_defs)
  from main_execute_in_order_until_fatal
    [where E = ?E and gh = "github_scenario []" and ge = "gitee_scenario []" and tr = "[]"
       and before = "[]" and u = "()" and ?tr1.0 = "[]" and platform = "''github''"
       and later = "[''gitee'']"]
    h1 h2
  have "main_execute ?E (github_scenario []) (gitee_scenario []) [] [''github'', ''gitee''] =
      (Inl (JsError ''Validation Failed'' (Some 422)),
       [Enter_publishGitHubRelease,
        Octokit_createRelease ''octo'' ''demo'' ''v1.0.0'' ''Release 1'' ''notes'' False False,
        Core_setFailed ''GitHub Release publication failed: Validation Failed''])"
    by simp
  with h1 h2 h3 show ?thesis by simp
qed

text \<open>
  Claim C2 at the input \<open>platforms = github,constructor\<close> with a GitHub token: the name
  \<open>constructor\<close> is no platform, but \<open>platforms[platform]\<close> finds the member that every
  object inherits, so the validation passes, the GitHub adapter runs and creates the
  release, and \<open>core.setFailed\<close> is never called.
\<close>

theorem main_runs_adapter_before_inherited_name:
  "syncPlatforms_of (scenario_env no_inputs net_ok) ''github,constructor'' =
     [''github'', ''constructor'']
   \<and> platforms ''constructor'' = Some Object_prototype_member
   \<and> main (scenario_env (action_inputs [(''platforms'', ''github,constructor''), (''tag'', ''v1.0.0''),
        (''release-name'', ''Release 1''), (''github-token'', ''ghp'')]) net_ok) =
      [Enter_publishGitHubRelease,
       Octokit_createRelease ''octo'' ''demo'' ''v1.0.0'' ''Release 1'' [] False False]"
  by (simp add: main_defs scenario_defs github_defs)

section \<open>Normalizing the platform list\<close>

lemma ascii_lower_cases:
  "ascii_lower c = c \<or>
   (digit6 c \<and> \<not> digit7 c \<and> digit5 (ascii_lower c) \<and> digit6 (ascii_lower c)
    \<and> \<not> digit7 (ascii_lower c))"
proof (cases c)
  case (Char b0 b1 b2 b3 b4 b5 b6 b7)
  then show ?thesis
    by (cases b5; cases b6; cases b7) (simp_all add: ascii_lower_def Let_def)
qed

lemma ascii_lower_fixed: "digit5 c \<Longrightarrow> ascii_lower c = c"
proof (cases c)
  case (Char b0 b1 b2 b3 b4 b5 b6 b7)
  assume "digit5 c"
  with Char show ?thesis
    by (cases b6; cases b7) (simp_all add: ascii_lower_def Let_def)
qed

lemma ascii_lower_idem: "ascii_lower (ascii_lower c) = ascii_lower c"
  using ascii_lower_cases [of c] ascii_lower_fixed [of "ascii_lower c"] by auto

lemma ascii_lower_is_ascii: "is_ascii (ascii_lower c) = is_ascii c"
  using ascii_lower_cases [of c] by (auto simp: is_ascii_def)

lemma ascii_lower_preimage:
  "\<not> (digit5 b \<and> digit6 b \<and> \<not> digit7 b) \<Longrightarrow> ascii_lower c = b \<Longrightarrow> c = b"
  using ascii_lower_cases [of c] by auto

lemma lead_len_Nil: "lead_len tokens [] = 0"
  by (induction tokens) (auto simp: lead_len_def)

lemma lead_len_0_iff:
  "[] \<notin> set tokens \<Longrightarrow> lead_len tokens s = 0 \<longleftrightarrow> (\<forall>w\<in>set tokens. \<not> prefix w s)"
proof (cases "find (\<lambda>w. prefix w s) tokens")
  case None
  then have "\<forall>w\<in>set tokens. \<not> prefix w s" by (simp add: find_None_iff)
  with None show ?thesis by (simp add: lead_len_def)
next
  case (Some w)
  then have w: "w \<in> set tokens" "prefix w s"
    by (auto simp: find_Some_iff)
  assume "[] \<notin> set tokens"
  with w have "w \<noteq> []" by auto
  with Some w show ?thesis by (auto simp: lead_len_def)
qed

lemma strip_aux_drop: "\<exists>n. strip_aux tokens k s = drop n s"
proof (induction tokens k s rule: strip_aux.induct)
  case (1 tokens k)
  show ?case by simp
next
  case (2 tokens k c cs)
  then obtain n where "strip_aux tokens k cs = drop n cs" by blast
  then show ?case by (intro exI [of _ "Suc n"]) simp
next
  case (3 tokens c cs)
  show ?case
  proof (cases "lead_len tokens (c # cs)")
    case 0
    then show ?thesis by (intro exI [of _ 0]) simp
  next
    case (Suc k)
    with 3 obtain n where "strip_aux tokens k cs = drop n cs" by blast
    with Suc show ?thesis by (intro exI [of _ "Suc n"]) simp
  qed
qed

lemma strip_aux_clean: "lead_len tokens (strip_aux tokens k s) = 0"
  by (induction tokens k s rule: strip_aux.induct) (auto simp: lead_len_Nil split: nat.splits)

lemma rev_drop_rev: "rev (drop k (rev t)) = take (length t - k) t"
  by (simp add: rev_drop)

lemma trim_shape: "\<exists>m n. trim s = take m (drop n s)"
proof -
  obtain n where n: "strip_leading ws_encodings s = drop n s"
    using strip_aux_drop [of ws_encodings 0 s] by (auto simp: strip_leading_def)
  define t where "t = drop n s"
  obtain k where "strip_leading (map rev ws_encodings) (rev t) = drop k (rev t)"
    using strip_aux_drop [of "map rev ws_encodings" 0 "rev t"]
    by (auto simp: strip_leading_def)
  with n have "trim s = take (length t - k) t"
    by (simp add: trim_def t_def [symmetric] rev_drop_rev)
  then show ?thesis unfolding t_def by blast
qed

lemma set_trim: "set (trim s) \<subseteq> set s"
proof -
  from trim_shape [of s] obtain m n where "trim s = take m (drop n s)" by blast
  then show ?thesis by (auto dest: in_set_takeD in_set_dropD)
qed

lemma trim_clean:
  "lead_len ws_encodings (trim s) = 0 \<and> lead_len (map rev ws_encodings) (rev (trim s)) = 0"
proof
  define t where "t = strip_leading ws_encodings s"
  have ne: "[] \<notin> set ws_encodings" by (simp add: ws_encodings_def)
  have t: "lead_len ws_encodings t = 0" by (simp add: t_def strip_leading_def strip_aux_clean)
  obtain k where k: "strip_leading (map rev ws_encodings) (rev t) = drop k (rev t)"
    using strip_aux_drop [of "map rev ws_encodings" 0 "rev t"] by (auto simp: strip_leading_def)
  then have "trim s = take (length t - k) t"
    by (simp add: trim_def t_def [symmetric] rev_drop_rev)
  then have p: "prefix (trim s) t" by (simp add: take_is_prefix)
  have "\<not> prefix w (trim s)" if "w \<in> set ws_encodings" for w
  proof
    assume "prefix w (trim s)"
    with p have "prefix w t" by (auto intro: prefix_order.trans)
    with t ne that show False by (simp add: lead_len_0_iff)
  qed
  with ne show "lead_len ws_encodings (trim s) = 0" by (simp add: lead_len_0_iff)
  show "lead_len (map rev ws_encodings) (rev (trim s)) = 0"
    by (simp add: trim_def strip_leading_def strip_aux_clean)
qed

lemma prefix_map_preimage:
  "\<forall>b\<in>set w. \<forall>c. f c = b \<longrightarrow> c = b \<Longrightarrow> prefix w (map f x) \<Longrightarrow> prefix w x"
proof (induction w arbitrary: x)
  case Nil
  show ?case by simp
next
  case (Cons b w)
  then show ?case by (cases x) auto
qed

lemma ws_bytes: "w \<in> set ws_encodings \<Longrightarrow> b \<in> set w \<Longrightarrow> \<not> (digit5 b \<and> digit6 b \<and> \<not> digit7 b)"
  by (auto simp: ws_encodings_def)

lemma lead_len_lower:
  assumes "\<forall>w\<in>set tokens. \<forall>b\<in>set w. \<not> (digit5 b \<and> digit6 b \<and> \<not> digit7 b)"
    and "[] \<notin> set tokens" and "lead_len tokens x = 0"
  shows "lead_len tokens (map ascii_lower x) = 0"
proof -
  have "\<not> prefix w (map ascii_lower x)" if w: "w \<in> set tokens" for w
  proof
    assume p: "prefix w (map ascii_lower x)"
    have "\<forall>b\<in>set w. \<forall>c. ascii_lower c = b \<longrightarrow> c = b"
    proof (intro ballI allI impI)
      fix b c assume b: "b \<in> set w" and c: "ascii_lower c = b"
      from assms(1) w b have "\<not> (digit5 b \<and> digit6 b \<and> \<not> digit7 b)" by blast
      then show "c = b" using c by (rule ascii_lower_preimage)
    qed
    from prefix_map_preimage [OF this p] have "prefix w x" .
    with assms(2,3) w show False by (simp add: lead_len_0_iff)
  qed
  with assms(2) show ?thesis by (simp add: lead_len_0_iff)
qed

lemma split_char_nonempty: "split_char sep s \<noteq> []"
  by (induction s) (auto split: list.splits)

lemma split_char_no_sep: "w \<in> set (split_char sep s) \<Longrightarrow> sep \<notin> set w"
proof (induction s arbitrary: w)
  case Nil
  then show ?case by simp
next
  case (Cons c s)
  then show ?case
    by (cases "split_char sep s") (auto split: if_splits)
qed

lemma split_char_join:
  "es \<noteq> [] \<Longrightarrow> \<forall>e\<in>set es. sep \<notin> set e \<Longrightarrow> split_char sep (join_char sep es) = es"
proof (induction es rule: join_char.induct)
  case (1 sep)
  then show ?case by simp
next
  case (2 sep w)
  then show ?case
  proof (induction w)
    case Nil
    then show ?case by simp
  next
    case (Cons c w)
    then show ?case by (auto split: list.splits)
  qed
next
  case (3 sep w v ws)
  then have ih: "split_char sep (join_char sep (v # ws)) = v # ws" by simp
  from 3 have "sep \<notin> set w" by simp
  then show ?case
  proof (induction w)
    case Nil
    then show ?case using ih by simp
  next
    case (Cons c w)
    then show ?case by (auto split: list.splits)
  qed
qed

lemma join_split_char: "join_char sep (split_char sep s) = s"
proof (induction s)
  case Nil
  show ?case by simp
next
  case (Cons c s)
  show ?case
  proof (cases "split_char sep s")
    case Nil
    with split_char_nonempty show ?thesis by blast
  next
    case (Cons w ws)
    with Cons.IH show ?thesis by (cases ws) auto
  qed
qed


lemma split_char_set: "w \<in> set (split_char sep s) \<Longrightarrow> set w \<subseteq> set s"
proof (induction s arbitrary: w)
  case Nil
  then show ?case by simp
next
  case (Cons c s)
  show ?case
  proof (cases "split_char sep s")
    case Nil
    with Cons.prems show ?thesis by (auto split: if_splits)
  next
    case (Cons a list)
    with Cons.IH [of a] have a: "set a \<subseteq> set s" by simp
    from Cons Cons.IH have l: "\<And>v. v \<in> set list \<Longrightarrow> set v \<subseteq> set s" by simp
    from Cons.prems Cons a l show ?thesis by (auto split: if_splits)
  qed
qed

lemma syncPlatforms_of_item:
  assumes ascii: "list_all is_ascii platformsInput"
    and item: "item \<in> set (syncPlatforms_of E platformsInput)"
  shows "item \<noteq> [] \<and> list_all is_ascii item \<and> map ascii_lower item = item
         \<and> CHR '','' \<notin> set item
         \<and> lead_len ws_encodings item = 0 \<and> lead_len (map rev ws_encodings) (rev item) = 0"
proof -
  from item obtain e where e: "e \<in> set (split_char CHR '','' platformsInput)"
      "item = toLowerCase (unicode_toLowerCase E) (trim e)" "item \<noteq> []"
    by (auto simp: syncPlatforms_of_def)
  from split_char_set [OF e(1)] set_trim [of e] ascii have te: "list_all is_ascii (trim e)"
    by (auto simp: list_all_iff)
  with e(2) have i: "item = map ascii_lower (trim e)" by (simp add: toLowerCase_def)
  from te i have a: "list_all is_ascii item"
    by (simp add: list_all_iff ascii_lower_is_ascii)
  from i have l: "map ascii_lower item = item" by (simp add: ascii_lower_idem)
  have c: "CHR '','' \<notin> set item"
  proof
    assume "CHR '','' \<in> set item"
    with i obtain c where c: "c \<in> set (trim e)" "ascii_lower c = CHR '',''" by auto
    from c(2) have "c = CHR '',''" by (rule ascii_lower_preimage [rotated]) simp
    with c(1) set_trim [of e] have "CHR '','' \<in> set e" by auto
    with split_char_no_sep [OF e(1)] show False by simp
  qed
  have ne: "[] \<notin> set ws_encodings" "[] \<notin> set (map rev ws_encodings)"
    by (simp_all add: ws_encodings_def)
  have b1: "\<forall>w\<in>set ws_encodings. \<forall>b\<in>set w. \<not> (digit5 b \<and> digit6 b \<and> \<not> digit7 b)"
    using ws_bytes by blast
  then have b2: "\<forall>w\<in>set (map rev ws_encodings). \<forall>b\<in>set w. \<not> (digit5 b \<and> digit6 b \<and> \<not> digit7 b)"
    by auto
  from trim_clean [of e] have t: "lead_len ws_encodings (trim e) = 0"
    "lead_len (map rev ws_encodings) (rev (trim e)) = 0" by simp_all
  from lead_len_lower [OF b1 ne(1) t(1)] i have w1: "lead_len ws_encodings item = 0" by simp
  from lead_len_lower [OF b2 ne(2) t(2)] i
  have w2: "lead_len (map rev ws_encodings) (rev item) = 0" by (simp add: rev_map)
  from e(3) a l c w1 w2 show ?thesis by simp
qed

lemma main_inputs_platforms:
  assumes "main_inputs E = Inr (ps, gh, ge)"
  shows "\<exists>s. getInput E ''platforms'' True = Inr s \<and> ps = syncPlatforms_of E s"
  using assms unfolding main_inputs_def try_bind_def
  by (auto split: sum.splits)

lemma main_after_inputs:
  assumes "main_inputs E = Inr (ps, gh, ge)"
  shows "main E =
           (case main_validate (token gh) (token ge) (owner ge) (repo ge) ps of
              Some errorMessage \<Rightarrow> [Core_setFailed errorMessage]
            | None \<Rightarrow>
                (case main_execute E gh ge [] ps of
                   (Inl error, tr) \<Rightarrow>
                     tr @ [Core_setFailed (''Release synchronization failed: '' @ message error)]
                 | (Inr done, tr) \<Rightarrow> tr))"
  using assms by (simp add: main_def main_try_def split: option.splits)

lemma main_validate_accepts:
  assumes "\<forall>p\<in>set ps. (p = ''github'' \<and> githubToken \<noteq> []) \<or>
             (p = ''gitee'' \<and> giteeToken \<noteq> [] \<and> giteeOwner \<noteq> [] \<and> giteeRepo \<noteq> [])"
  shows "main_validate githubToken giteeToken giteeOwner giteeRepo ps = None"
  using assms by (induction ps) (auto simp: platforms_def)

lemma main_entries:
  assumes inp: "main_inputs E = Inr (ps, gh, ge)"
    and ok: "main_validate (token gh) (token ge) (owner ge) (repo ge) ps = None"
  shows "\<exists>k\<le>length ps.
           filter is_adapter_entry (main E) = expected_entries (take k ps)
           \<and> (case fst (main_execute E gh ge [] ps) of Inr done \<Rightarrow> k = length ps | Inl e \<Rightarrow> 0 < k)"
proof -
  obtain r tr where x: "main_execute E gh ge [] ps = (r, tr)"
    by (cases "main_execute E gh ge [] ps")
  from main_execute_entries [OF x] obtain k where
    k: "k \<le> length ps" "filter is_adapter_entry tr = expected_entries (take k ps)"
       "case r of Inr u \<Rightarrow> k = length ps | Inl e \<Rightarrow> 0 < k"
    by auto
  from main_after_inputs [OF inp] ok x
  have "filter is_adapter_entry (main E) = filter is_adapter_entry tr"
    by (cases r) simp_all
  with k x show ?thesis by (intro exI [of _ k]) (simp split: sum.splits)
qed

text \<open>
  Claim C9. Every \<open>platforms\<close> input is the join of comma-free entries, and the platform
  list is those entries trimmed and lowercased, in order, without the entries that are
  empty after trimming. For an input of ASCII characters every element of the list is
  non-empty, unchanged by lowercasing, free of commas and without white space at either
  end. This list is what \<open>main\<close> works on: once the inputs are read, \<open>main\<close> is the
  validation of the list followed by the execution loop over it; and when each element
  of the list is \<open>github\<close> or \<open>gitee\<close> with its credentials present, however the entries
  were cased, padded or separated, the validation passes and the adapters entered are
  those of the first \<open>k\<close> elements in order, all of them unless an adapter throws.
\<close>

theorem syncPlatforms_normalized:
  "(\<exists>entries. entries \<noteq> [] \<and> CHR '','' \<notin> \<Union> (set ` set entries)
        \<and> platformsInput = join_char CHR '','' entries)
   \<and> (es \<noteq> [] \<and> (\<forall>e\<in>set es. CHR '','' \<notin> set e) \<longrightarrow>
        syncPlatforms_of E (join_char CHR '','' es) =
          filter (\<lambda>item. item \<noteq> [])
            (map (\<lambda>e. toLowerCase (unicode_toLowerCase E) (trim e)) es))
   \<and> (list_all is_ascii platformsInput \<longrightarrow>
        (\<forall>item\<in>set (syncPlatforms_of E platformsInput).
           item \<noteq> [] \<and> list_all is_ascii item \<and> map ascii_lower item = item
           \<and> CHR '','' \<notin> set item
           \<and> lead_len ws_encodings item = 0 \<and> lead_len (map rev ws_encodings) (rev item) = 0))
   \<and> (main_inputs E = Inr (ps, gh, ge) \<longrightarrow>
        (\<exists>s. getInput E ''platforms'' True = Inr s \<and> ps = syncPlatforms_of E s)
        \<and> main E =
            (case main_validate (token gh) (token ge) (owner ge) (repo ge) ps of
               Some errorMessage \<Rightarrow> [Core_setFailed errorMessage]
             | None \<Rightarrow>
                 (case main_execute E gh ge [] ps of
                    (Inl error, tr) \<Rightarrow>
                      tr @ [Core_setFailed (''Release synchronization failed: '' @ message error)]
                  | (Inr done, tr) \<Rightarrow> tr)))
   \<and> (main_inputs E = Inr (ps, gh, ge)
        \<and> (\<forall>p\<in>set ps. (p = ''github'' \<and> token gh \<noteq> []) \<or>
              (p = ''gitee'' \<and> token ge \<noteq> [] \<and> owner ge \<noteq> [] \<and> repo ge \<noteq> []))
      \<longrightarrow> main_validate (token gh) (token ge) (owner ge) (repo ge) ps = None
          \<and> (\<exists>k\<le>length ps.
                filter is_adapter_entry (main E) = expected_entries (take k ps)
                \<and> (case fst (main_execute E gh ge [] ps) of
                      Inr done \<Rightarrow> k = length ps
                    | Inl e \<Rightarrow> 0 < k)))"
proof -
  have "split_char CHR '','' platformsInput \<noteq> []
        \<and> CHR '','' \<notin> \<Union> (set ` set (split_char CHR '','' platformsInput))
        \<and> platformsInput = join_char CHR '','' (split_char CHR '','' platformsInput)"
    using split_char_no_sep [of _ "CHR '',''" platformsInput]
    by (auto simp: split_char_nonempty join_split_char)
  then have a: "\<exists>entries. entries \<noteq> [] \<and> CHR '','' \<notin> \<Union> (set ` set entries)
        \<and> platformsInput = join_char CHR '','' entries"
    by blast
  have b: "syncPlatforms_of E (join_char CHR '','' es) =
          filter (\<lambda>item. item \<noteq> [])
            (map (\<lambda>e. toLowerCase (unicode_toLowerCase E) (trim e)) es)"
    if "es \<noteq> [] \<and> (\<forall>e\<in>set es. CHR '','' \<notin> set e)"
  proof -
    from that have "split_char CHR '','' (join_char CHR '','' es) = es"
      by (simp add: split_char_join)
    then show ?thesis by (simp add: syncPlatforms_of_def)
  qed
  have c: "\<forall>item\<in>set (syncPlatforms_of E platformsInput).
           item \<noteq> [] \<and> list_all is_ascii item \<and> map ascii_lower item = item
           \<and> CHR '','' \<notin> set item
           \<and> lead_len ws_encodings item = 0 \<and> lead_len (map rev ws_encodings) (rev item) = 0"
    if "list_all is_ascii platformsInput"
    using syncPlatforms_of_item [OF that] by blast
  have d: "(\<exists>s. getInput E ''platforms'' True = Inr s \<and> ps = syncPlatforms_of E s)
        \<and> main E =
            (case main_validate (token gh) (token ge) (owner ge) (repo ge) ps of
               Some errorMessage \<Rightarrow> [Core_setFailed errorMessage]
             | None \<Rightarrow>
                 (case main_execute E gh ge [] ps of
                    (Inl error, tr) \<Rightarrow>
                      tr @ [Core_setFailed (''Release synchronization failed: '' @ message error)]
                  | (Inr done, tr) \<Rightarrow> tr))"
    if "main_inputs E = Inr (ps, gh, ge)"
    using main_inputs_platforms [OF that] main_after_inputs [OF that] by simp
  have e: "main_validate (token gh) (token ge) (owner ge) (repo ge) ps = None
          \<and> (\<exists>k\<le>length ps.
                filter is_adapter_entry (main E) = expected_entries (take k ps)
                \<and> (case fst (main_execute E gh ge [] ps) of
                      Inr done \<Rightarrow> k = length ps
                    | Inl e \<Rightarrow> 0 < k))"
    if "main_inputs E = Inr (ps, gh, ge)
        \<and> (\<forall>p\<in>set ps. (p = ''github'' \<and> token gh \<noteq> []) \<or>
              (p = ''gitee'' \<and> token ge \<noteq> [] \<and> owner ge \<noteq> [] \<and> repo ge \<noteq> []))"
  proof -
    from that have v: "main_validate (token gh) (token ge) (owner ge) (repo ge) ps = None"
      by (intro main_validate_accepts) simp
    from that main_entries [OF _ v] v show ?thesis by simp
  qed
  from a b c d e show ?thesis by blast
qed

theorem syncPlatforms_normalized_witness:
  "join_char CHR '','' ['' GitHub '', '' GITEE'', [], '' ''] = '' GitHub , GITEE,, ''
   \<and> list_all is_ascii '' GitHub , GITEE,, ''
   \<and> syncPlatforms_of (scenario_env no_inputs net_ok) '' GitHub , GITEE,, '' = [''github'', ''gitee'']
   \<and> main_inputs (scenario_env (action_inputs [(''platforms'', '' GitHub , GITEE,, ''),
        (''tag'', ''v1.0.0''), (''release-name'', ''Release 1''), (''github-token'', ''ghp''),
        (''gitee-token'', ''gtk''), (''gitee-owner'', ''acme''), (''gitee-repo'', ''app'')]) net_ok) =
      Inr ([''github'', ''gitee''],
           \<lparr>token = ''ghp'', tag = ''v1.0.0'', releaseName = ''Release 1'', body = [],
            prerelease = False, assetFiles = [], draft = False\<rparr>,
           \<lparr>token = ''gtk'', tag = ''v1.0.0'', releaseName = ''Release 1'', body = [],
            prerelease = False, assetFiles = [],
            owner = ''acme'', repo = ''app'', targetCommitish = []\<rparr>)
   \<and> main_validate ''ghp'' ''gtk'' ''acme'' ''app'' [''github'', ''gitee''] = None
   \<and> main (scenario_env (action_inputs [(''platforms'', '' GitHub , GITEE,, ''),
        (''tag'', ''v1.0.0''), (''release-name'', ''Release 1''), (''github-token'', ''ghp''),
        (''gitee-token'', ''gtk''), (''gitee-owner'', ''acme''), (''gitee-repo'', ''app'')]) net_ok) =
      [Enter_publishGitHubRelease,
       Octokit_createRelease ''octo'' ''demo'' ''v1.0.0'' ''Release 1'' [] False False,
       Enter_publishGiteeRelease,
       Axios_get_tag ''https://gitee.com/api/v5/repos/acme/app'' ''v1.0.0'' ''gtk'',
       Axios_post_releases ''https://gitee.com/api/v5/repos/acme/app'' ''gtk'' ''v1.0.0''
         ''Release 1'' [] ''false'' []]"
proof -
  let ?E = "scenario_env (action_inputs [(''platforms'', '' GitHub , GITEE,, ''),
        (''tag'', ''v1.0.0''), (''release-name'', ''Release 1''), (''github-token'', ''ghp''),
        (''gitee-token'', ''gtk''), (''gitee-owner'', ''acme''), (''gitee-repo'', ''app'')]) net_ok"
  let ?gh = "\<lparr>token = ''ghp'', tag = ''v1.0.0'', releaseName = ''Release 1'', body = [],
            prerelease = False, assetFiles = [], draft = False\<rparr>"
  let ?ge = "\<lparr>token = ''gtk'', tag = ''v1.0.0'', releaseName = ''Release 1'', body = [],
            prerelease = False, assetFiles = [],
            owner = ''acme'', repo = ''app'', targetCommitish = []\<rparr>"
  have j: "join_char CHR '','' ['' GitHub '', '' GITEE'', [], '' ''] = '' GitHub , GITEE,, ''"
    by simp
  have a: "list_all is_ascii '' GitHub , GITEE,, ''" by (simp add: is_ascii_def)
  have s: "syncPlatforms_of E' '' GitHub , GITEE,, '' = [''github'', ''gitee'']" for E'
    by (simp add: syncPlatforms_of_def string_defs)
  have i: "main_inputs ?E = Inr ([''github'', ''gitee''], ?gh, ?ge)"
    by (simp add: main_inputs_def try_bind_def s scenario_env_def inputs_of_def
        action_inputs_def resolveAssetFiles_def)
  have c: "\<forall>p\<in>set [''github'', ''gitee''].
        (p = ''github'' \<and> token ?gh \<noteq> []) \<or>
        (p = ''gitee'' \<and> token ?ge \<noteq> [] \<and> owner ?ge \<noteq> [] \<and> repo ?ge \<noteq> [])"
    by simp
  note n = syncPlatforms_normalized [where es = "['' GitHub '', '' GITEE'', [], '' '']"
      and platformsInput = "'' GitHub , GITEE,, ''"
      and E = ?E and ps = "[''github'', ''gitee'']" and gh = ?gh and ge = ?ge]
  from n i c have v: "main_validate ''ghp'' ''gtk'' ''acme'' ''app'' [''github'', ''gitee''] = None"
    by simp
  from n i have "main ?E =
      (case main_validate (token ?gh) (token ?ge) (owner ?ge) (repo ?ge) [''github'', ''gitee''] of
         Some errorMessage \<Rightarrow> [Core_setFailed errorMessage]
       | None \<Rightarrow>
           (case main_execute ?E ?gh ?ge [] [''github'', ''gitee''] of
              (Inl error, tr) \<Rightarrow>
                tr @ [Core_setFailed (''Release synchronization failed: '' @ message error)]
            | (Inr done, tr) \<Rightarrow> tr))"
    by blast
  then have m: "main ?E =
      [Enter_publishGitHubRelease,
       Octokit_createRelease ''octo'' ''demo'' ''v1.0.0'' ''Release 1'' [] False False,
       Enter_publishGiteeRelease,
       Axios_get_tag ''https://gitee.com/api/v5/repos/acme/app'' ''v1.0.0'' ''gtk'',
       Axios_post_releases ''https://gitee.com/api/v5/repos/acme/app'' ''gtk'' ''v1.0.0''
         ''Release 1'' [] ''false'' []]"
    by (simp add: platforms_def scenario_env_def net_ok_def ok_release_def github_defs gitee_defs)
  from j a s i v m show ?thesis by simp
qed


section \<open>The asset resolver\<close>





















end
